theory Spec2Isabelle
  imports Complex_Main
begin

section \<open>Python values used by the bot\<close>

text \<open>
  Strings are \<open>string\<close>, Python's unbounded integers are \<open>int\<close>. Numbers of seconds
  (\<open>timedelta.total_seconds()\<close> and everything computed from it) are exact rationals:
  the rounding of Python's binary floats is not part of the model.
\<close>

definition digit_char :: "nat \<Rightarrow> char" where
  "digit_char d = ''0123456789'' ! d"

fun str_nat :: "nat \<Rightarrow> string" where
  "str_nat n = (if n < 10 then [digit_char n] else str_nat (n div 10) @ [digit_char (n mod 10)])"

declare str_nat.simps [simp del]

text \<open>\<open>str(i)\<close> for an integer.\<close>

definition str_int :: "int \<Rightarrow> string" where
  "str_int i = (if i < 0 then ''-'' @ str_nat (nat (- i)) else str_nat (nat i))"

text \<open>\<open>"%02d" % i\<close>: at least two characters, zeros after the sign.\<close>

definition fmt_02d :: "int \<Rightarrow> string" where
  "fmt_02d i =
     (if i < 0 then ''-'' @ replicate (1 - length (str_nat (nat (- i)))) CHR ''0'' @ str_nat (nat (- i))
      else replicate (2 - length (str_nat (nat i))) CHR ''0'' @ str_nat (nat i))"

text \<open>\<open>" ".join(msg)\<close>.\<close>

fun join_sp :: "string list \<Rightarrow> string" where
  "join_sp [] = []"
| "join_sp [x] = x"
| "join_sp (x # y # ys) = x @ '' '' @ join_sp (y # ys)"

text \<open>\<open>s.startswith(p)\<close> and the substring test \<open>sub in s\<close>.\<close>

fun startswith :: "string \<Rightarrow> string \<Rightarrow> bool" where
  "startswith [] s = True"
| "startswith (p # ps) [] = False"
| "startswith (p # ps) (c # cs) = (p = c \<and> startswith ps cs)"

fun py_in :: "string \<Rightarrow> string \<Rightarrow> bool" where
  "py_in sub [] = (sub = [])"
| "py_in sub (c # cs) = (startswith sub (c # cs) \<or> py_in sub cs)"

text \<open>\<open>int(x)\<close> of a number truncates towards zero.\<close>

definition py_int :: "rat \<Rightarrow> int" where
  "py_int x = (if 0 \<le> x then \<lfloor>x\<rfloor> else \<lceil>x\<rceil>)"

text \<open>\<open>round(x)\<close> with one argument: to the nearest integer, a tie to the even one.\<close>

definition py_round :: "rat \<Rightarrow> int" where
  "py_round x =
     (let f = \<lfloor>x\<rfloor>; d = x - of_int f in
      if d < 1 / 2 then f
      else if 1 / 2 < d then f + 1
      else if even f then f else f + 1)"

text \<open>
  A \<open>datetime\<close> is a number of microseconds since the epoch, which is the resolution of
  Python's type. \<open>total_seconds\<close> of a difference of two of them:
\<close>

definition total_seconds :: "int \<Rightarrow> rat" where
  "total_seconds us = of_int us / 1000000"

section \<open>The chat platform\<close>

text \<open>
  Modelled from the spec: the platform connector (the \<open>discord\<close> package) is not part
  of the repository. Following the DisplaySurface contract, a guild lists its channels,
  creating a channel and posting a message return, and renaming or deleting a channel either
  succeeds or raises \<open>Forbidden\<close>; which of the two is a property of the channel
  (\<open>c_manageable\<close>: the bot holds the manage-channels permission on it). A channel object
  is identified by its id, and its \<open>name\<close> attribute is the name the guild currently
  holds for that id.
\<close>

datatype ChannelType = voice | text_channel | category

record channel =
  c_id :: int
  c_name :: string
  c_type :: ChannelType
  c_manageable :: bool

record guild =
  g_name :: string
  g_channels :: "channel list"

text \<open>
  What the bot asks of the platform, in the order it asks it; next to these, every call of
  \<open>do_bot_cleanup\<close> and every task handed to the event loop is recorded. A record is an
  attempt: \<open>Edit\<close> and \<open>Delete\<close> carry the answer of the platform, False when it
  raised \<open>Forbidden\<close>.
\<close>

datatype event =
    Send int int string
  | Edit int int string bool
  | Delete int int bool
  | Create int string
  | Cleanup int
  | Spawn int

section \<open>The store and the process state\<close>

text \<open>
  The three tables of the MySQL database, keyed by guild id. Statements take effect in
  program order on one store; transactions and connections are not modelled.

  Modelled from the spec: the schema is not part of the repository. \<open>servers.id\<close> and
  \<open>times.id\<close> are unique keys (the code relies on it with \<open>ON DUPLICATE KEY\<close>). The
  column \<open>times.time\<close> is the spec's accumulated presence-seconds counter and holds the sum
  of what is added to it; a new row starts at 0. A new \<open>servers\<close> row has no last-query
  timestamp (the spec: null means never queried), announces nothing and hides the hours.
\<close>

record server_row =
  ip :: string
  port :: int
  announce_joins :: bool
  announce_joins_id :: "int option"
  hours :: bool
  last_query :: "int option"

record world =
  guilds :: "int \<rightharpoonup> guild"
  servers :: "int list"
  t_servers :: "int \<rightharpoonup> server_row"
  t_names :: "int \<Rightarrow> string list"
  t_times :: "int \<rightharpoonup> rat"
  events :: "event list"

text \<open>
  The Python exceptions that leave a function of the bot. \<open>row[0]\<close> on the \<open>None\<close> that
  \<open>fetchone()\<close> gives for an empty result raises \<open>TypeError\<close>; reading a local variable
  never assigned raises \<open>UnboundLocalError\<close>; a failed query raises one of three.
\<close>

datatype query_failure = TimeoutError | ConnectionRefusedError | gaierror

datatype error = TypeError | UnboundLocalError | QueryError query_failure

definition emit :: "event \<Rightarrow> world \<Rightarrow> world" where
  "emit e w = w\<lparr>events := events w @ [e]\<rparr>"

definition get_server_by_id :: "world \<Rightarrow> int \<Rightarrow> guild option" where
  "get_server_by_id w sid = guilds w sid"

text \<open>
  \<open>find_channels\<close>, called with \<open>serv\<close> throughout the code (the \<open>sid\<close> parameter is
  left out). \<open>channamesearch\<close> is compared as it is: the callers pass the lowercase
  literals, on which \<open>lower()\<close> is the identity.
\<close>

definition find_channels ::
  "guild \<Rightarrow> int option \<Rightarrow> string option \<Rightarrow> string \<Rightarrow> ChannelType option \<Rightarrow> channel list" where
  "find_channels serv chanid channame channamesearch chantype =
     filter (\<lambda>c.
        \<not> (case chanid of None \<Rightarrow> False | Some i \<Rightarrow> c_id c \<noteq> i) \<and>
        \<not> (case channame of None \<Rightarrow> False | Some n \<Rightarrow> channamesearch = ''equal'' \<and> c_name c \<noteq> n) \<and>
        \<not> (case channame of None \<Rightarrow> False | Some n \<Rightarrow> channamesearch = ''in'' \<and> \<not> py_in n (c_name c)) \<and>
        \<not> (case chantype of None \<Rightarrow> False | Some t \<Rightarrow> c_type c \<noteq> t))
       (g_channels serv)"

subsection \<open>Reading and writing the tables\<close>

definition getMCIP :: "int \<Rightarrow> world \<Rightarrow> error + string \<times> int" where
  "getMCIP sid w = (case t_servers w sid of None \<Rightarrow> Inl TypeError | Some row \<Rightarrow> Inr (ip row, port row))"

definition getMCNames :: "int \<Rightarrow> world \<Rightarrow> string list" where
  "getMCNames sid w = t_names w sid"

definition getMCQueryTime :: "int \<Rightarrow> world \<Rightarrow> error + int option" where
  "getMCQueryTime sid w = (case t_servers w sid of None \<Rightarrow> Inl TypeError | Some row \<Rightarrow> Inr (last_query row))"

definition getPersonSeconds :: "int \<Rightarrow> world \<Rightarrow> error + int" where
  "getPersonSeconds sid w = (case t_times w sid of None \<Rightarrow> Inl TypeError | Some t \<Rightarrow> Inr (py_int t))"

definition getShowHours :: "int \<Rightarrow> world \<Rightarrow> error + bool" where
  "getShowHours sid w = (case t_servers w sid of None \<Rightarrow> Inl TypeError | Some row \<Rightarrow> Inr (hours row))"

definition getMCJoinAnnounce :: "int \<Rightarrow> world \<Rightarrow> error + bool \<times> int option" where
  "getMCJoinAnnounce sid w =
     (case t_servers w sid of None \<Rightarrow> Inl TypeError
      | Some row \<Rightarrow> Inr (announce_joins row, announce_joins_id row))"

text \<open>An \<open>UPDATE ... WHERE id=\<close> changes the row when there is one and nothing otherwise.\<close>

definition update_server :: "int \<Rightarrow> (server_row \<Rightarrow> server_row) \<Rightarrow> world \<Rightarrow> world" where
  "update_server sid f w =
     (case t_servers w sid of None \<Rightarrow> w | Some row \<Rightarrow> w\<lparr>t_servers := (t_servers w)(sid \<mapsto> f row)\<rparr>)"

definition setMCNames :: "int \<Rightarrow> string list \<Rightarrow> world \<Rightarrow> world" where
  "setMCNames sid names w = w\<lparr>t_names := (t_names w)(sid := names)\<rparr>"

text \<open>The timestamp is written with \<open>strftime('%Y-%m-%d %H:%M:%S')\<close>: whole seconds.\<close>

definition setMCQueryTime :: "int \<Rightarrow> int \<Rightarrow> world \<Rightarrow> world" where
  "setMCQueryTime sid dt w = update_server sid (\<lambda>row. row\<lparr>last_query := Some (dt - dt mod 1000000)\<rparr>) w"

definition incrementPersonSeconds :: "int \<Rightarrow> rat \<Rightarrow> world \<Rightarrow> world" where
  "incrementPersonSeconds sid seconds w =
     (case t_times w sid of None \<Rightarrow> w | Some t \<Rightarrow> w\<lparr>t_times := (t_times w)(sid \<mapsto> t + seconds)\<rparr>)"

subsection \<open>Platform calls\<close>

definition upd_channels :: "int \<Rightarrow> (channel list \<Rightarrow> channel list) \<Rightarrow> world \<Rightarrow> world" where
  "upd_channels sid f w =
     (case guilds w sid of None \<Rightarrow> w
      | Some g \<Rightarrow> w\<lparr>guilds := (guilds w)(sid \<mapsto> g\<lparr>g_channels := f (g_channels g)\<rparr>)\<rparr>)"

text \<open>\<open>c.name\<close>: the name the guild holds for the channel's id (the object's own when gone).\<close>

definition chan_name :: "world \<Rightarrow> int \<Rightarrow> channel \<Rightarrow> string" where
  "chan_name w sid c =
     (case guilds w sid of None \<Rightarrow> c_name c
      | Some g \<Rightarrow> (case find (\<lambda>d. c_id d = c_id c) (g_channels g) of None \<Rightarrow> c_name c | Some d \<Rightarrow> c_name d))"

text \<open>
  \<open>await c.edit(name=n)\<close> and \<open>await c.delete()\<close>: the flag returned is False when the
  platform raised \<open>Forbidden\<close>.
\<close>

definition edit :: "int \<Rightarrow> channel \<Rightarrow> string \<Rightarrow> world \<Rightarrow> bool \<times> world" where
  "edit sid c n w =
     (let w1 = emit (Edit sid (c_id c) n (c_manageable c)) w in
      if c_manageable c
      then (True, upd_channels sid (map (\<lambda>d. if c_id d = c_id c then d\<lparr>c_name := n\<rparr> else d)) w1)
      else (False, w1))"

definition delete :: "int \<Rightarrow> channel \<Rightarrow> world \<Rightarrow> bool \<times> world" where
  "delete sid c w =
     (let w1 = emit (Delete sid (c_id c) (c_manageable c)) w in
      if c_manageable c
      then (True, upd_channels sid (filter (\<lambda>d. c_id d \<noteq> c_id c)) w1)
      else (False, w1))"

text \<open>
  \<open>create_voice_channel(n, overwrites=overwrites)\<close>: a new voice channel under an id not in
  use, on which the overwrites give the bot the manage-channels permission.
\<close>

definition fresh_id :: "channel list \<Rightarrow> int" where
  "fresh_id cs = fold max (map c_id cs) 0 + 1"

definition create_voice_channel :: "int \<Rightarrow> string \<Rightarrow> world \<Rightarrow> world" where
  "create_voice_channel sid n w =
     upd_channels sid
       (\<lambda>cs. cs @ [\<lparr>c_id = fresh_id cs, c_name = n, c_type = voice, c_manageable = True\<rparr>])
       (emit (Create sid n) w)"

text \<open>
  \<open>safe_send\<close> posts to a channel of a guild; on \<open>Forbidden\<close> it only prints, so both
  outcomes leave the same state. A command's context is the guild and channel it came from.
\<close>

record ctx =
  ctx_guild_id :: int
  ctx_guild_name :: string
  ctx_channel :: int

definition safe_send_chan :: "string \<Rightarrow> int \<Rightarrow> channel \<Rightarrow> world \<Rightarrow> world" where
  "safe_send_chan msg sid chan w = emit (Send sid (c_id chan) msg) w"

definition safe_send_ctx :: "string \<Rightarrow> ctx \<Rightarrow> string \<Rightarrow> world \<Rightarrow> world" where
  "safe_send_ctx msg c format w = emit (Send (ctx_guild_id c) (ctx_channel c) (format @ msg @ format)) w"

definition log_msg :: "ctx \<Rightarrow> string list \<Rightarrow> world \<Rightarrow> world" where
  "log_msg c msg w = safe_send_ctx (join_sp msg) c '''' w"

section \<open>Teardown\<close>

text \<open>
  The loop \<open>for channel in channels: await channel.delete()\<close> inside its \<open>try\<close>: the
  flag is \<open>deleted\<close>, True when the loop ran to its end.
\<close>

fun delete_all :: "int \<Rightarrow> channel list \<Rightarrow> world \<Rightarrow> bool \<times> world" where
  "delete_all sid [] w = (True, w)"
| "delete_all sid (c # cs) w =
     (case delete sid c w of
        (True, w1) \<Rightarrow> delete_all sid cs w1
      | (False, w1) \<Rightarrow> (False, w1))"

definition display_channels :: "guild \<Rightarrow> channel list" where
  "display_channels currServ =
     find_channels currServ None (Some ''IP: '') ''in'' (Some voice) @
     find_channels currServ None (Some ''Players: '') ''in'' (Some voice) @
     find_channels currServ None (Some ''Player Hrs: '') ''in'' (Some voice)"

definition delete_rows :: "int \<Rightarrow> world \<Rightarrow> world" where
  "delete_rows sid w =
     w\<lparr>t_servers := (t_servers w)(sid := None),
       t_names := (t_names w)(sid := []),
       t_times := (t_times w)(sid := None)\<rparr>"

definition cleanup_msg :: "string \<Rightarrow> string \<Rightarrow> bool \<Rightarrow> string list" where
  "cleanup_msg ip_addr gname deleted =
     [''Cleaned up! Removed'', ip_addr, ''querier, deleted'',
      gname @ [CHR 0x27] @ ''s data from my server,'',
      (if deleted then ''and removed my status channels.''
       else ''but failed to remove my status channels. '')]"

text \<open>\<open>do_bot_cleanup(sid, ctx)\<close>; the first component is the exception it raises, if any.\<close>

definition do_bot_cleanup :: "int \<Rightarrow> ctx option \<Rightarrow> world \<Rightarrow> error option \<times> world" where
  "do_bot_cleanup sid cx w0 =
     (let w1 = emit (Cleanup sid) (w0\<lparr>servers := remove1 sid (servers w0)\<rparr>);
          (deleted, w2) =
             (case get_server_by_id w1 sid of
                None \<Rightarrow> (False, w1)
              | Some currServ \<Rightarrow> delete_all sid (display_channels currServ) w1)
      in case getMCIP sid w2 of
           Inl e \<Rightarrow> (Some e, w2)
         | Inr (ip_addr, _) \<Rightarrow>
             (let w3 = delete_rows sid w2 in
              case cx of
                None \<Rightarrow> (None, w3)
              | Some c \<Rightarrow> (None, log_msg c (cleanup_msg ip_addr (ctx_guild_name c) deleted) w3)))"

section \<open>The monitoring task\<close>

text \<open>
  What one query returns: \<open>players.online\<close>, \<open>players.max\<close>, \<open>players.names\<close> and the
  message of the day, or one of the three failures that \<open>status_task\<close> catches. Each pass
  of the loop is given the outcome of its query and the reading of the clock.
\<close>

type_synonym status_t = "int \<times> int \<times> string list \<times> string"

type_synonym query_result = "query_failure + status_t"

text \<open>
  The local variables of \<open>status_task\<close> that a pass of the loop can read without having
  assigned them in that pass; None is a variable not yet bound. (\<open>players\<close> and
  \<open>lastSeconds\<close> are assigned in every pass, in the \<open>try\<close> block or in its handlers.)
\<close>

record locals =
  first_iter :: bool
  max_v :: "int option"
  names_v :: "string list option"
  currTime_v :: "int option"
  lastTime_v :: "int option"

definition start_locals :: locals where
  "start_locals = \<lparr>first_iter = True, max_v = None, names_v = None, currTime_v = None, lastTime_v = None\<rparr>"

text \<open>
  \<open>list(set(names) - set(oldNames))\<close>. Python leaves the order of the list open; here the
  names come in the order of their first occurrence in \<open>names\<close>.
\<close>

definition jNames :: "string list \<Rightarrow> string list \<Rightarrow> string list" where
  "jNames names oldNames = remdups (filter (\<lambda>n. n \<notin> set oldNames) names)"

text \<open>The loop over \<open>jNames\<close> (\<open>annRole\<close> is always None).\<close>

fun announce :: "int \<Rightarrow> guild \<Rightarrow> int \<Rightarrow> string list \<Rightarrow> world \<Rightarrow> world" where
  "announce sid currServ annChanId [] w = w"
| "announce sid currServ annChanId (name # rest) w =
     announce sid currServ annChanId rest
       (case find_channels currServ (Some annChanId) None ''equal'' None of
          [] \<Rightarrow> w
        | c # _ \<Rightarrow> safe_send_chan (name @ '' joined the game!'') sid c w)"

text \<open>
  The \<open>try\<close> block of a pass with its two handlers. The result is the values of
  \<open>players\<close> and \<open>lastSeconds\<close>, the other locals and the state, or the exception that
  leaves the block.
\<close>

definition query_phase ::
  "int \<Rightarrow> guild \<Rightarrow> query_result \<Rightarrow> int \<Rightarrow> locals \<Rightarrow> world \<Rightarrow> error + (int \<times> int \<times> locals \<times> world)" where
  "query_phase sid currServ q now loc w =
     (let oldNames = getMCNames sid w in
      case q of
        Inl _ \<Rightarrow> Inr (- 1, - 1, loc, w)
      | Inr (p, m, names, _) \<Rightarrow>
         (let loc1 = loc\<lparr>max_v := Some m, names_v := Some names\<rparr> in
          case getMCQueryTime sid w of
            Inl e \<Rightarrow> Inl e
          | Inr lastTime0 \<Rightarrow>
             (case getPersonSeconds sid w of
                Inl e \<Rightarrow> Inl e
              | Inr lastSeconds \<Rightarrow>
                 (let currTime = now;
                      lastTime = (case lastTime0 of None \<Rightarrow> currTime | Some t \<Rightarrow> t);
                      loc2 = loc1\<lparr>currTime_v := Some currTime, lastTime_v := Some lastTime\<rparr>;
                      w1 = setMCNames sid names w;
                      w2 = setMCQueryTime sid currTime w1;
                      w3 = (if \<not> first_iter loc
                            then incrementPersonSeconds sid
                                   (of_nat (length names) * total_seconds (currTime - lastTime)) w2
                            else w2)
                  in case getMCJoinAnnounce sid w3 of
                       Inl e \<Rightarrow> Inl e
                     | Inr (announceJoin, annChanId) \<Rightarrow>
                         (case annChanId of
                            Some cid \<Rightarrow>
                              if announceJoin
                              then Inr (p, lastSeconds, loc2, announce sid currServ cid (jNames names oldNames) w3)
                              else Inr (p, lastSeconds, loc2, w3)
                          | None \<Rightarrow> Inr (p, lastSeconds, loc2, w3))))))"

text \<open>How a pass of the loop ends: it sleeps for \<open>wait\<close> seconds, returns, or raises.\<close>

datatype outcome = Sleep nat | Return | Raise error

text \<open>\<open>await do_bot_cleanup(sid)\<close> followed by \<open>return\<close>.\<close>

definition cleanup_and_return :: "int \<Rightarrow> world \<Rightarrow> outcome \<times> world" where
  "cleanup_and_return sid w =
     (case do_bot_cleanup sid None w of
        (Some e, w1) \<Rightarrow> (Raise e, w1)
      | (None, w1) \<Rightarrow> (Return, w1))"

text \<open>
  The three display blocks. Each is given the value of \<open>wait\<close> so far; \<open>Sleep\<close> carries
  the value it leaves, and the pass goes on to the next block.
\<close>

definition ip_display :: "int \<Rightarrow> string \<Rightarrow> channel list \<Rightarrow> nat \<Rightarrow> world \<Rightarrow> outcome \<times> world" where
  "ip_display sid ip_addr iChannels wait w =
     (case iChannels of
        c # _ \<Rightarrow>
          (let lastIPName = chan_name w sid c; ipStr = ''IP: '' @ ip_addr in
           if lastIPName \<noteq> ipStr then
             (case edit sid c ipStr w of
                (True, w1) \<Rightarrow> (Sleep 301, w1)
              | (False, w1) \<Rightarrow> cleanup_and_return sid w1)
           else (Sleep wait, w))
      | [] \<Rightarrow> (Sleep wait, create_voice_channel sid (''IP: '' @ ip_addr) w))"

definition players_display ::
  "int \<Rightarrow> int \<Rightarrow> int option \<Rightarrow> channel list \<Rightarrow> nat \<Rightarrow> world \<Rightarrow> outcome \<times> world" where
  "players_display sid players mx pChannels wait w =
     (case pChannels of
        c # _ \<Rightarrow>
          (let lastPName = chan_name w sid c in
           case (if players = - 1 then Inr lastPName
                 else (case mx of
                         None \<Rightarrow> Inl UnboundLocalError
                       | Some m \<Rightarrow> Inr (''Players: '' @ str_int players @ ''/'' @ str_int m))) of
             Inl e \<Rightarrow> (Raise e, w)
           | Inr pStr \<Rightarrow>
               if lastPName \<noteq> pStr then
                 (case edit sid c pStr w of
                    (True, w1) \<Rightarrow> (Sleep 301, w1)
                  | (False, w1) \<Rightarrow> cleanup_and_return sid w1)
               else (Sleep wait, w))
      | [] \<Rightarrow>
          (case mx of
             None \<Rightarrow> (Raise UnboundLocalError, w)
           | Some m \<Rightarrow>
               (Sleep wait,
                create_voice_channel sid (''Players: '' @ str_int players @ ''/'' @ str_int m) w)))"

definition hours_str :: "int \<Rightarrow> string list \<Rightarrow> int \<Rightarrow> int \<Rightarrow> string" where
  "hours_str lastSeconds names currTime lastTime =
     ''Player Hrs: '' @
     str_int (py_round ((of_int lastSeconds + of_nat (length names) * total_seconds (currTime - lastTime)) / 3600))"

definition hours_display ::
  "int \<Rightarrow> int \<Rightarrow> locals \<Rightarrow> channel list \<Rightarrow> nat \<Rightarrow> world \<Rightarrow> outcome \<times> world" where
  "hours_display sid lastSeconds loc tChannels wait w =
     (case getShowHours sid w of
        Inl e \<Rightarrow> (Raise e, w)
      | Inr showHours \<Rightarrow>
          if showHours \<and> \<not> first_iter loc \<and> lastSeconds \<noteq> - 1 then
            (case (names_v loc, currTime_v loc, lastTime_v loc) of
               (Some names, Some currTime, Some lastTime) \<Rightarrow>
                 (let tStr = hours_str lastSeconds names currTime lastTime in
                  case tChannels of
                    c # _ \<Rightarrow>
                      (let lastTName = chan_name w sid c in
                       if lastTName \<noteq> tStr then
                         (case edit sid c tStr w of
                            (True, w1) \<Rightarrow> (Sleep 301, w1)
                          | (False, w1) \<Rightarrow> cleanup_and_return sid w1)
                       else (Sleep wait, w))
                  | [] \<Rightarrow> (Sleep wait, create_voice_channel sid tStr w))
             | _ \<Rightarrow> (Raise UnboundLocalError, w))
          else (Sleep wait, w))"

text \<open>
  The part of a pass after the \<open>try\<close> block: the three channel lists are read first, then
  the blocks run in order, each only when the one before has not ended the pass.
\<close>

definition display_phase ::
  "int \<Rightarrow> guild \<Rightarrow> string \<Rightarrow> int \<Rightarrow> int \<Rightarrow> locals \<Rightarrow> world \<Rightarrow> outcome \<times> world" where
  "display_phase sid currServ ip_addr players lastSeconds loc w =
     (let iChannels = find_channels currServ None (Some ''IP: '') ''in'' (Some voice);
          pChannels = find_channels currServ None (Some ''Players: '') ''in'' (Some voice);
          tChannels = find_channels currServ None (Some ''Player Hrs: '') ''in'' (Some voice)
      in case ip_display sid ip_addr iChannels 10 w of
           (Sleep wait1, w1) \<Rightarrow>
             (case players_display sid players (max_v loc) pChannels wait1 w1 of
                (Sleep wait2, w2) \<Rightarrow> hours_display sid lastSeconds loc tChannels wait2 w2
              | r \<Rightarrow> r)
         | r \<Rightarrow> r)"

text \<open>One pass of the \<open>while True\<close> loop of \<open>status_task\<close>, up to its \<open>sleep\<close>.\<close>

definition status_iter ::
  "int \<Rightarrow> query_result \<times> int \<Rightarrow> locals \<Rightarrow> world \<Rightarrow> outcome \<times> locals \<times> world" where
  "status_iter sid inp loc w =
     (case get_server_by_id w sid of
        None \<Rightarrow> (case cleanup_and_return sid w of (r, w1) \<Rightarrow> (r, loc, w1))
      | Some currServ \<Rightarrow>
          if sid \<notin> set (servers w) then (Return, loc, w)
          else
            (case getMCIP sid w of
               Inl e \<Rightarrow> (Raise e, loc, w)
             | Inr (ip_addr, _) \<Rightarrow>
                 if ip_addr = '''' then (Sleep 10, loc, w)
                 else
                   (case query_phase sid currServ (fst inp) (snd inp) loc w of
                      Inl e \<Rightarrow> (Raise e, loc, w)
                    | Inr (players, lastSeconds, loc1, w1) \<Rightarrow>
                        (case display_phase sid currServ ip_addr players lastSeconds loc1 w1 of
                           (r, w2) \<Rightarrow> (r, loc1, w2)))))"

text \<open>
  The task, run on the outcomes of its first queries: after a pass that sleeps,
  \<open>first_iter\<close> is False and the next pass begins; \<open>Running\<close> is the task asleep after the
  last of the given passes.
\<close>

datatype task_state = Running locals | Returned | Raised error

fun status_task :: "int \<Rightarrow> (query_result \<times> int) list \<Rightarrow> locals \<Rightarrow> world \<Rightarrow> task_state \<times> world" where
  "status_task sid [] loc w = (Running loc, w)"
| "status_task sid (inp # rest) loc w =
     (case status_iter sid inp loc w of
        (Sleep wait, loc1, w1) \<Rightarrow> status_task sid rest (loc1\<lparr>first_iter := False\<rparr>) w1
      | (Return, loc1, w1) \<Rightarrow> (Returned, w1)
      | (Raise e, loc1, w1) \<Rightarrow> (Raised e, w1))"

section \<open>The commands\<close>

subsection \<open>The patterns of \<open>validate_ip_port\<close>\<close>

text \<open>
  Regular expressions with character classes, matched through derivatives. \<open>fullmatch\<close>
  holds when the whole string is in the language, \<open>match_start\<close> when a prefix of it is.
\<close>

datatype rexp = Null | Eps | Cls string | Alt rexp rexp | Seq rexp rexp | Star rexp

fun nullable :: "rexp \<Rightarrow> bool" where
  "nullable Null = False"
| "nullable Eps = True"
| "nullable (Cls cs) = False"
| "nullable (Alt r s) = (nullable r \<or> nullable s)"
| "nullable (Seq r s) = (nullable r \<and> nullable s)"
| "nullable (Star r) = True"

fun deriv :: "char \<Rightarrow> rexp \<Rightarrow> rexp" where
  "deriv c Null = Null"
| "deriv c Eps = Null"
| "deriv c (Cls cs) = (if c \<in> set cs then Eps else Null)"
| "deriv c (Alt r s) = Alt (deriv c r) (deriv c s)"
| "deriv c (Seq r s) =
     (if nullable r then Alt (Seq (deriv c r) s) (deriv c s) else Seq (deriv c r) s)"
| "deriv c (Star r) = Seq (deriv c r) (Star r)"

fun fullmatch :: "rexp \<Rightarrow> string \<Rightarrow> bool" where
  "fullmatch r [] = nullable r"
| "fullmatch r (c # cs) = fullmatch (deriv c r) cs"

fun match_start :: "rexp \<Rightarrow> string \<Rightarrow> bool" where
  "match_start r [] = nullable r"
| "match_start r (c # cs) = (nullable r \<or> match_start (deriv c r) cs)"

definition lit :: "string \<Rightarrow> rexp" where
  "lit s = foldr (\<lambda>c r. Seq (Cls [c]) r) s Eps"

definition plus_re :: "rexp \<Rightarrow> rexp" where
  "plus_re r = Seq r (Star r)"

definition opt_re :: "rexp \<Rightarrow> rexp" where
  "opt_re r = Alt r Eps"

definition lower_c :: rexp where
  "lower_c = Cls ''abcdefghijklmnopqrstuvwxyz''"

definition alnum_c :: rexp where
  "alnum_c = Cls ''abcdefghijklmnopqrstuvwxyz0123456789''"

definition digit_c :: rexp where
  "digit_c = Cls ''0123456789''"

text \<open>\<open>([a-z0-9]+(-[a-z0-9]+)*\.)+[a-z]{2,6}\<close>\<close>

definition domain_re :: rexp where
  "domain_re =
     Seq (plus_re (Seq (Seq (plus_re alnum_c) (Star (Seq (lit ''-'') (plus_re alnum_c)))) (lit ''.'')))
         (Seq lower_c (Seq lower_c (Seq (opt_re lower_c) (Seq (opt_re lower_c) (Seq (opt_re lower_c) (opt_re lower_c))))))"

text \<open>\<open>[0-9]|[1-9][0-9]|1[0-9]{2}|2[0-4][0-9]|25[0-5]\<close>\<close>

definition octet_re :: rexp where
  "octet_re =
     Alt digit_c
     (Alt (Seq (Cls ''123456789'') digit_c)
     (Alt (Seq (lit ''1'') (Seq digit_c digit_c))
     (Alt (Seq (lit ''2'') (Seq (Cls ''01234'') digit_c))
          (Seq (lit ''25'') (Cls ''012345'')))))"

text \<open>\<open>((octet)\.){3}(octet)\<close>\<close>

definition addr_re :: rexp where
  "addr_re =
     Seq (Seq octet_re (lit ''.'')) (Seq (Seq octet_re (lit ''.'')) (Seq (Seq octet_re (lit ''.'')) octet_re))"

text \<open>
  \<open>(^127\.)|(^10\.)|(^172\.1[6-9]\.)|(^172\.2[0-9]\.)|(^172\.3[0-1]\.)|(^192\.168\.)\<close>:
  every branch is anchored at the start, so \<open>re.search\<close> finds it when a prefix matches.
\<close>

definition private_re :: rexp where
  "private_re =
     Alt (lit ''127.'')
     (Alt (lit ''10.'')
     (Alt (Seq (lit ''172.1'') (Seq (Cls ''6789'') (lit ''.'')))
     (Alt (Seq (lit ''172.2'') (Seq digit_c (lit ''.'')))
     (Alt (Seq (lit ''172.3'') (Seq (Cls ''01'') (lit ''.'')))
          (lit ''192.168.'')))))"

subsection \<open>\<open>validate_ip_port\<close>\<close>

text \<open>\<open>s.split(sep)\<close> for a separator of one character.\<close>

fun split_on :: "char \<Rightarrow> string \<Rightarrow> string list" where
  "split_on sep [] = [[]]"
| "split_on sep (c # cs) =
     (if c = sep then [] # split_on sep cs
      else (case split_on sep cs of [] \<Rightarrow> [[c]] | x # xs \<Rightarrow> (c # x) # xs))"

text \<open>
  \<open>int(s)\<close> of a string, as far as ASCII goes: blanks around, a sign, and decimal digits
  in groups joined by single underscores; None is \<open>ValueError\<close>.
\<close>

definition is_space :: "char \<Rightarrow> bool" where
  "is_space c = (c \<in> set [CHR '' '', CHR 0x09, CHR 0x0A, CHR 0x0B, CHR 0x0C, CHR 0x0D])"

definition strip :: "string \<Rightarrow> string" where
  "strip s = rev (dropWhile is_space (rev (dropWhile is_space s)))"

definition digit_val :: "char \<Rightarrow> nat" where
  "digit_val c = length (takeWhile (\<lambda>d. d \<noteq> c) ''0123456789'')"

definition is_digit :: "char \<Rightarrow> bool" where
  "is_digit c = (c \<in> set ''0123456789'')"

definition int_of_str :: "string \<Rightarrow> int option" where
  "int_of_str s =
     (let t = strip s;
          neg = (t \<noteq> [] \<and> hd t = CHR ''-'');
          body = (if t \<noteq> [] \<and> (hd t = CHR ''-'' \<or> hd t = CHR ''+'') then tl t else t);
          groups = split_on CHR ''_'' body
      in if list_all (\<lambda>g. g \<noteq> [] \<and> list_all is_digit g) groups
         then (let v = int (foldl (\<lambda>a c. 10 * a + digit_val c) 0 (concat groups))
               in Some (if neg then - v else v))
         else None)"

definition bad_port_msg :: "int \<Rightarrow> string list" where
  "bad_port_msg p = [str_int p, ''is not a valid port number, please try again.'']"

definition bad_addr_msg :: "string \<Rightarrow> string list" where
  "bad_addr_msg a = [a, ''is not a valid domain or IP address, please try again.'']"

definition private_msg :: "string \<Rightarrow> string list" where
  "private_msg a = [a, ''is a private IP. I won'' @ [CHR 0x27] @ ''t be able to query it.'']"

text \<open>
  The first component is \<open>(ip, port)\<close>, or None for \<open>(None, None)\<close>. The two patterns for
  the address end in \<open>$\<close>, which also matches before a final newline; the comparison of
  \<open>group(0)\<close> with \<open>ip\<close> then fails, so the address passes exactly when all of it matches.
\<close>

definition validate_ip_port :: "ctx \<Rightarrow> string \<Rightarrow> int \<Rightarrow> world \<Rightarrow> (string \<times> int) option \<times> world" where
  "validate_ip_port c ip0 port0 w =
     (let split = split_on CHR '':'' ip0 in
      case (if length split > 1
            then (case int_of_str (split ! 1) of None \<Rightarrow> None | Some p \<Rightarrow> Some (split ! 0, p))
            else Some (ip0, port0)) of
        None \<Rightarrow> (None, log_msg c (bad_port_msg port0) w)
      | Some (ip_addr, prt) \<Rightarrow>
          if \<not> (0 \<le> prt \<and> prt < 65536) then (None, log_msg c (bad_port_msg prt) w)
          else if \<not> fullmatch domain_re ip_addr \<and> \<not> fullmatch addr_re ip_addr
          then (None, log_msg c (bad_addr_msg ip_addr) w)
          else if match_start private_re ip_addr then (None, log_msg c (private_msg ip_addr) w)
          else (Some (ip_addr, prt), w))"

subsection \<open>\<open>setup\<close> and \<open>setAnn\<close>\<close>

text \<open>
  \<open>setAnn\<close>: its first test compares the list that \<open>find_channels\<close> returns with None and
  so never holds; the function goes on to read the address.
\<close>

definition setAnn :: "ctx \<Rightarrow> bool \<Rightarrow> int option \<Rightarrow> world \<Rightarrow> error option \<times> world" where
  "setAnn c ann cid w =
     (case getMCIP (ctx_guild_id c) w of
        Inl e \<Rightarrow> (Some e, w)
      | Inr (ip_addr, _) \<Rightarrow>
          (let w1 = update_server (ctx_guild_id c)
                      (\<lambda>row. row\<lparr>announce_joins := ann,
                                 announce_joins_id := (if ann then cid else None)\<rparr>) w
           in (None,
               log_msg c
                 [if ann
                  then ''Announcing when a player joins '' @ ip_addr @ '' in <#'' @
                       (case cid of None \<Rightarrow> ''None'' | Some i \<Rightarrow> str_int i) @ ''>.''
                  else ''Not announcing when a player joins '' @ ip_addr @ ''.''] w1)))"

text \<open>The two \<open>INSERT ... ON DUPLICATE KEY UPDATE\<close> statements of \<open>setup\<close>.\<close>

definition upsert_server :: "int \<Rightarrow> string \<Rightarrow> int \<Rightarrow> world \<Rightarrow> world" where
  "upsert_server gid val_ip prt w =
     w\<lparr>t_servers := (t_servers w)(gid \<mapsto>
         (case t_servers w gid of
            None \<Rightarrow> \<lparr>ip = val_ip, port = prt, announce_joins = False, announce_joins_id = None,
                      hours = False, last_query = None\<rparr>
          | Some row \<Rightarrow> row\<lparr>ip := val_ip, port := prt\<rparr>))\<rparr>"

definition insert_times :: "int \<Rightarrow> world \<Rightarrow> world" where
  "insert_times gid w =
     (case t_times w gid of None \<Rightarrow> w\<lparr>t_times := (t_times w)(gid \<mapsto> 0)\<rparr> | Some _ \<Rightarrow> w)"

text \<open>
  \<open>Admin.setup\<close>, given the outcome of its query. The row is written with the \<open>port\<close>
  argument, as the statement has it. A query that fails to resolve the name is not caught.
\<close>

definition Admin_setup :: "ctx \<Rightarrow> string \<Rightarrow> int \<Rightarrow> int option \<Rightarrow> query_result \<Rightarrow> world \<Rightarrow> error option \<times> world" where
  "Admin_setup c ip0 port0 annChanID q w =
     (case validate_ip_port c ip0 port0 w of
        (None, w1) \<Rightarrow> (None, w1)
      | (Some (val_ip, val_port), w1) \<Rightarrow>
          if val_ip = [] then (None, w1)
          else
            (case q of
               Inl TimeoutError \<Rightarrow> (None, log_msg c [''Setup query error, query port enabled?''] w1)
             | Inl ConnectionRefusedError \<Rightarrow> (None, log_msg c [''Setup query failed, server down?''] w1)
             | Inl gaierror \<Rightarrow> (Some (QueryError gaierror), w1)
             | Inr (_, _, names, _) \<Rightarrow>
                 (let gid = ctx_guild_id c;
                      w2 = upsert_server gid val_ip port0 w1;
                      w3 = setMCNames gid names w2;
                      w4 = insert_times gid w3
                  in case setAnn c (annChanID \<noteq> None) annChanID w4 of
                       (Some e, w5) \<Rightarrow> (Some e, w5)
                     | (None, w5) \<Rightarrow>
                         (let w6 = (if gid \<notin> set (servers w5)
                                    then (emit (Spawn gid) w5)\<lparr>servers := servers w5 @ [gid]\<rparr>
                                    else w5)
                          in (None, log_msg c [''Setup new server query with IP: '' @ val_ip] w6)))))"

subsection \<open>\<open>Other.status\<close>\<close>

text \<open>Lines 171 to 177: the seconds reduced and printed with \<open>"%d:%02d:%02d"\<close>.\<close>

definition total_player_time :: "int \<Rightarrow> string" where
  "total_player_time seconds0 =
     (let seconds1 = seconds0 mod (24 * 3600);
          hour = seconds1 div 3600;
          seconds2 = seconds1 mod 3600;
          minutes = seconds2 div 60;
          seconds3 = seconds2 mod 60
      in str_int hour @ '':'' @ fmt_02d minutes @ '':'' @ fmt_02d seconds3)"

definition status_text :: "string \<Rightarrow> string \<Rightarrow> int \<Rightarrow> int \<Rightarrow> int \<Rightarrow> string" where
  "status_text ip_addr motd players mx seconds =
     ''Status:'' @ [CHR 0x0A] @ ''  '' @ ip_addr @ [CHR 0x0A] @ ''  '' @ motd @ [CHR 0x0A, CHR 0x0A] @
     ''  Players: '' @ str_int players @ ''/'' @ str_int mx @ [CHR 0x0A] @
     ''  Total Player Time: '' @ total_player_time seconds"

text \<open>
  The \<open>status\<close> command, given the outcome of its query; the exceptions of the query are
  not caught here (\<open>mc\<close> is an object and never None).
\<close>

definition Other_status :: "ctx \<Rightarrow> query_result \<Rightarrow> world \<Rightarrow> error option \<times> world" where
  "Other_status c q w =
     (case getMCIP (ctx_guild_id c) w of
        Inl e \<Rightarrow> (Some e, w)
      | Inr (ip_addr, _) \<Rightarrow>
          (case q of
             Inl f \<Rightarrow> (Some (QueryError f), w)
           | Inr (players, mx, _, motd) \<Rightarrow>
               (case getPersonSeconds (ctx_guild_id c) w of
                  Inl e \<Rightarrow> (Some e, w)
                | Inr seconds \<Rightarrow>
                    (None, safe_send_ctx (status_text ip_addr motd players mx seconds) c ''```'' w))))"

section \<open>Notions of the specification\<close>

text \<open>
  These definitions are not code of the bot: they name what the statements below speak of.

  The channel a pass posts its join messages to: announcements are on, a target is
  configured, and the guild has a channel of that id.
\<close>

definition announce_target :: "world \<Rightarrow> int \<Rightarrow> guild \<Rightarrow> channel option" where
  "announce_target w sid currServ =
     (case t_servers w sid of
        None \<Rightarrow> None
      | Some row \<Rightarrow>
          if announce_joins row then
            (case announce_joins_id row of
               None \<Rightarrow> None
             | Some cid \<Rightarrow>
                 (case find_channels currServ (Some cid) None ''equal'' None of
                    [] \<Rightarrow> None
                  | c # _ \<Rightarrow> Some c))
          else None)"

definition join_events :: "int \<Rightarrow> channel option \<Rightarrow> string list \<Rightarrow> event list" where
  "join_events sid target ns =
     (case target of
        None \<Rightarrow> []
      | Some c \<Rightarrow> map (\<lambda>n. Send sid (c_id c) (n @ '' joined the game!'')) ns)"

text \<open>A number of seconds written as hours, minutes and seconds, \<open>H:MM:SS\<close>.\<close>

definition hms :: "int \<Rightarrow> string" where
  "hms s = str_int (s div 3600) @ '':'' @ fmt_02d (s div 60 mod 60) @ '':'' @ fmt_02d (s mod 60)"

subsection \<open>Concrete states\<close>

text \<open>
  A guild with a text channel and the address and player-count displays, monitored and
  announcing joins in the text channel; last queried at second 1000 with three players
  online and 5000 player-seconds so far.
\<close>

definition demo_guild :: guild where
  "demo_guild =
     \<lparr>g_name = ''Guild'',
      g_channels =
        [\<lparr>c_id = 1, c_name = ''general'', c_type = text_channel, c_manageable = True\<rparr>,
         \<lparr>c_id = 2, c_name = ''IP: mc.example.com'', c_type = voice, c_manageable = True\<rparr>,
         \<lparr>c_id = 3, c_name = ''Players: 3/20'', c_type = voice, c_manageable = True\<rparr>]\<rparr>"

definition demo_row :: server_row where
  "demo_row =
     \<lparr>ip = ''mc.example.com'', port = 25565, announce_joins = True, announce_joins_id = Some 1,
      hours = True, last_query = Some 1000000000\<rparr>"

definition demo_world :: world where
  "demo_world =
     \<lparr>guilds = [7 \<mapsto> demo_guild],
      servers = [7],
      t_servers = [7 \<mapsto> demo_row],
      t_names = (\<lambda>_. [])(7 := [''ann'', ''bob'', ''cy'']),
      t_times = [7 \<mapsto> 5000],
      events = []\<rparr>"

definition demo_ctx :: ctx where
  "demo_ctx = \<lparr>ctx_guild_id = 7, ctx_guild_name = ''Guild'', ctx_channel = 1\<rparr>"

text \<open>
  The deletions a teardown attempts on a list of channels: those the platform allows, in
  order, up to and including the first it forbids.
\<close>

definition attempted :: "channel list \<Rightarrow> channel list" where
  "attempted cs = takeWhile c_manageable cs @ take 1 (dropWhile c_manageable cs)"

text \<open>The events that \<open>w'\<close> has after those of \<open>w\<close>.\<close>

definition new_events :: "world \<Rightarrow> world \<Rightarrow> event list" where
  "new_events w w' = drop (length (events w)) (events w')"

text \<open>
  A guild whose address display the bot may not touch, next to a player-count display it
  could delete; and the state in which this guild is monitored.
\<close>

definition locked_guild :: guild where
  "locked_guild =
     \<lparr>g_name = ''Guild'',
      g_channels =
        [\<lparr>c_id = 1, c_name = ''general'', c_type = text_channel, c_manageable = True\<rparr>,
         \<lparr>c_id = 2, c_name = ''IP: old.example.com'', c_type = voice, c_manageable = False\<rparr>,
         \<lparr>c_id = 3, c_name = ''Players: 3/20'', c_type = voice, c_manageable = True\<rparr>]\<rparr>"

definition locked_world :: world where
  "locked_world = demo_world\<lparr>guilds := [7 \<mapsto> locked_guild]\<rparr>"

text \<open>
  \<open>same_store\<close>: the registry and the three tables are the same in both states.
  \<open>carried_out\<close>: a call the platform carried out that is no part of a teardown.
  \<open>step_ok\<close>: what a part of a pass can do, starting in \<open>w\<close>. Either it returns after
  the teardown that follows a forbidden rename: the events end in that rename, the call of
  \<open>do_bot_cleanup\<close> and its deletions, the rows of the tenant are gone and one entry of
  the tenant has left the registry. Or it leaves the store alone and all its calls are
  carried out.
\<close>

definition same_store :: "world \<Rightarrow> world \<Rightarrow> bool" where
  "same_store w w' =
     (servers w' = servers w \<and> t_servers w' = t_servers w \<and> t_names w' = t_names w \<and>
      t_times w' = t_times w)"

definition carried_out :: "event \<Rightarrow> bool" where
  "carried_out e =
     (case e of Send _ _ _ \<Rightarrow> True | Edit _ _ _ ok \<Rightarrow> ok | Create _ _ \<Rightarrow> True | _ \<Rightarrow> False)"

definition is_delete :: "event \<Rightarrow> bool" where
  "is_delete e = (case e of Delete _ _ _ \<Rightarrow> True | _ \<Rightarrow> False)"

definition step_ok :: "int \<Rightarrow> world \<Rightarrow> outcome \<times> world \<Rightarrow> bool" where
  "step_ok sid w r =
     (if fst r = Return
      then servers (snd r) = remove1 sid (servers w) \<and>
           t_servers (snd r) sid = None \<and> t_names (snd r) sid = [] \<and> t_times (snd r) sid = None \<and>
           (\<exists>evs c n dels.
              events (snd r) = events w @ evs @ Edit sid c n False # Cleanup sid # dels \<and>
              list_all carried_out evs \<and> list_all is_delete dels)
      else same_store w (snd r) \<and>
           (\<exists>evs. events (snd r) = events w @ evs \<and> list_all carried_out evs))"

text \<open>
  \<open>hours_event\<close>: a call that writes the accumulated-time display, a channel created
  or renamed with a name that starts with "Player Hrs: ". \<open>only_events\<close>: the second
  state has the events of the first and then only events of the given kind.
\<close>

definition hours_event :: "event \<Rightarrow> bool" where
  "hours_event e =
     (case e of
        Create _ n \<Rightarrow> startswith ''Player Hrs: '' n
      | Edit _ _ n _ \<Rightarrow> startswith ''Player Hrs: '' n
      | _ \<Rightarrow> False)"

definition only_events :: "(event \<Rightarrow> bool) \<Rightarrow> world \<Rightarrow> world \<Rightarrow> bool" where
  "only_events P w w' = (\<exists>evs. events w' = events w @ evs \<and> list_all P evs)"

text \<open>
  A monitored guild with an address display and no player-count display; and the address
  display of a guild as a pass finds it: absent, up to date, or open to a rename.
\<close>

definition bare_guild :: guild where
  "bare_guild =
     \<lparr>g_name = ''Guild'',
      g_channels =
        [\<lparr>c_id = 1, c_name = ''general'', c_type = text_channel, c_manageable = True\<rparr>,
         \<lparr>c_id = 2, c_name = ''IP: mc.example.com'', c_type = voice, c_manageable = True\<rparr>]\<rparr>"

definition bare_world :: world where
  "bare_world = demo_world\<lparr>guilds := [7 \<mapsto> bare_guild]\<rparr>"

definition address_step_passes :: "world \<Rightarrow> int \<Rightarrow> guild \<Rightarrow> string \<Rightarrow> bool" where
  "address_step_passes w sid g a =
     (case find_channels g None (Some ''IP: '') ''in'' (Some voice) of
        [] \<Rightarrow> True
      | c # _ \<Rightarrow> chan_name w sid c = ''IP: '' @ a \<or> c_manageable c)"

text \<open>A guild whose address display shows an address no longer configured and can be renamed.\<close>

definition stale_guild :: guild where
  "stale_guild =
     \<lparr>g_name = ''Guild'',
      g_channels =
        [\<lparr>c_id = 1, c_name = ''general'', c_type = text_channel, c_manageable = True\<rparr>,
         \<lparr>c_id = 2, c_name = ''IP: old.example.com'', c_type = voice, c_manageable = True\<rparr>,
         \<lparr>c_id = 3, c_name = ''Players: 3/20'', c_type = voice, c_manageable = True\<rparr>]\<rparr>"

definition stale_world :: world where
  "stale_world = demo_world\<lparr>guilds := [7 \<mapsto> stale_guild]\<rparr>"

text \<open>
  An IPv4 address in dotted decimal, and the private ranges by their first two numbers:
  10.0.0.0/8, 127.0.0.0/8, 172.16.0.0/12 and 192.168.0.0/16.
\<close>

definition dotted :: "nat \<Rightarrow> nat \<Rightarrow> nat \<Rightarrow> nat \<Rightarrow> string" where
  "dotted a b c d = str_nat a @ ''.'' @ str_nat b @ ''.'' @ str_nat c @ ''.'' @ str_nat d"

definition private_range :: "nat \<Rightarrow> nat \<Rightarrow> bool" where
  "private_range a b = (a = 10 \<or> a = 127 \<or> (a = 172 \<and> 16 \<le> b \<and> b \<le> 31) \<or> (a = 192 \<and> b = 168))"

section \<open>Properties\<close>

subsection \<open>Frame lemmas for the table updates\<close>

lemma events_update_server [simp]: "events (update_server sid f w) = events w"
  by (simp add: update_server_def split: option.splits)

lemma t_names_update_server [simp]: "t_names (update_server sid f w) = t_names w"
  by (simp add: update_server_def split: option.splits)

lemma t_times_update_server [simp]: "t_times (update_server sid f w) = t_times w"
  by (simp add: update_server_def split: option.splits)

lemma guilds_update_server [simp]: "guilds (update_server sid f w) = guilds w"
  by (simp add: update_server_def split: option.splits)

lemma servers_update_server [simp]: "servers (update_server sid f w) = servers w"
  by (simp add: update_server_def split: option.splits)

lemma t_servers_update_server:
  "t_servers (update_server sid f w) = (t_servers w)(sid := map_option f (t_servers w sid))"
  by (auto simp: update_server_def split: option.splits)

lemma events_incr [simp]: "events (incrementPersonSeconds sid x w) = events w"
  by (simp add: incrementPersonSeconds_def split: option.splits)

lemma t_names_incr [simp]: "t_names (incrementPersonSeconds sid x w) = t_names w"
  by (simp add: incrementPersonSeconds_def split: option.splits)

lemma t_servers_incr [simp]: "t_servers (incrementPersonSeconds sid x w) = t_servers w"
  by (simp add: incrementPersonSeconds_def split: option.splits)

lemma guilds_incr [simp]: "guilds (incrementPersonSeconds sid x w) = guilds w"
  by (simp add: incrementPersonSeconds_def split: option.splits)

lemma servers_incr [simp]: "servers (incrementPersonSeconds sid x w) = servers w"
  by (simp add: incrementPersonSeconds_def split: option.splits)

lemma t_times_incr:
  "t_times (incrementPersonSeconds sid x w) = (t_times w)(sid := map_option (\<lambda>t. t + x) (t_times w sid))"
  by (auto simp: incrementPersonSeconds_def split: option.splits)

subsection \<open>Join announcements\<close>

lemma set_jNames: "set (jNames names oldNames) = set names - set oldNames"
  by (auto simp: jNames_def)

lemma jNames_subset: "set names \<subseteq> set oldNames \<Longrightarrow> jNames names oldNames = []"
  by (auto simp: jNames_def filter_empty_conv)

lemma announce_eq:
  "announce sid g cid ns w =
     w\<lparr>events := events w @
        (case find_channels g (Some cid) None ''equal'' None of
           [] \<Rightarrow> []
         | c # _ \<Rightarrow> map (\<lambda>n. Send sid (c_id c) (n @ '' joined the game!'')) ns)\<rparr>"
  by (induction ns arbitrary: w) (auto simp: safe_send_chan_def emit_def split: list.splits)

text \<open>The state a successful query leaves before the announcements.\<close>

lemma query_phase_success:
  assumes "t_servers w sid = Some row" and "t_times w sid = Some t"
  shows "\<exists>w'. query_phase sid currServ (Inr (p, m, names, d)) now loc w =
           Inr (p, py_int t,
                loc\<lparr>max_v := Some m, names_v := Some names, currTime_v := Some now,
                    lastTime_v := Some (case last_query row of None \<Rightarrow> now | Some l \<Rightarrow> l)\<rparr>,
                w') \<and>
           guilds w' = guilds w \<and> servers w' = servers w \<and>
           t_names w' = (t_names w)(sid := names) \<and>
           t_servers w' = (t_servers w)(sid \<mapsto> row\<lparr>last_query := Some (now - now mod 1000000)\<rparr>) \<and>
           t_times w' = (t_times w)(sid \<mapsto>
              (if first_iter loc then t
               else t + of_nat (length names) *
                      total_seconds (now - (case last_query row of None \<Rightarrow> now | Some l \<Rightarrow> l)))) \<and>
           events w' = events w @
             join_events sid (announce_target w sid currServ) (jNames names (t_names w sid))"
  using assms
  unfolding query_phase_def Let_def getMCQueryTime_def getPersonSeconds_def getMCJoinAnnounce_def
    getMCNames_def setMCNames_def setMCQueryTime_def announce_target_def join_events_def
    incrementPersonSeconds_def update_server_def
  by (simp add: announce_eq map_upd_triv split: option.splits list.splits)

lemma query_phase_Inr_rows:
  assumes "query_phase sid currServ (Inr (p, m, names, d)) now loc w = Inr r"
  shows "\<exists>row t. t_servers w sid = Some row \<and> t_times w sid = Some t"
  using assms
  unfolding query_phase_def Let_def getMCQueryTime_def getPersonSeconds_def
  by (auto split: option.splits)

text \<open>
  C5. In a pass whose query succeeds, the players announced are the names of
  \<open>jNames\<close>, and as a set these are the observed roster minus the stored one; a roster
  that has no name outside the stored one gives the empty list, so observing the stored
  roster again announces nothing. The pass stores the observed roster for the next one.
\<close>

theorem joined_is_roster_difference:
  "set (jNames names oldNames) = set names - set oldNames \<and>
   (set names \<subseteq> set oldNames \<longrightarrow> jNames names oldNames = []) \<and>
   (query_phase sid currServ (Inr (p, m, names, d)) now loc w = Inr (pl, ls, loc', w') \<longrightarrow>
      t_names w' sid = names \<and>
      events w' = events w @
        join_events sid (announce_target w sid currServ) (jNames names (t_names w sid)) \<and>
      (set names \<subseteq> set (t_names w sid) \<longrightarrow> events w' = events w))"
proof (intro conjI impI)
  show "set (jNames names oldNames) = set names - set oldNames" by (rule set_jNames)
next
  assume "set names \<subseteq> set oldNames"
  then show "jNames names oldNames = []" by (rule jNames_subset)
next
  assume q: "query_phase sid currServ (Inr (p, m, names, d)) now loc w = Inr (pl, ls, loc', w')"
  then obtain row t where rows: "t_servers w sid = Some row" "t_times w sid = Some t"
    using query_phase_Inr_rows by blast
  from q query_phase_success[OF rows, of currServ p m names d now loc]
  have w': "t_names w' sid = names"
    "events w' = events w @
       join_events sid (announce_target w sid currServ) (jNames names (t_names w sid))"
    by auto
  show "t_names w' sid = names" by (rule w'(1))
  show "events w' = events w @
       join_events sid (announce_target w sid currServ) (jNames names (t_names w sid))"
    by (rule w'(2))
  assume "set names \<subseteq> set (t_names w sid)"
  then show "events w' = events w"
    by (simp add: w'(2) jNames_subset join_events_def split: option.splits)
qed

lemma demo_rows:
  "t_servers demo_world 7 = Some demo_row" "t_times demo_world 7 = Some 5000"
  by (simp_all add: demo_world_def)

lemma demo_announce_target:
  "announce_target demo_world 7 demo_guild =
     Some \<lparr>c_id = 1, c_name = ''general'', c_type = text_channel, c_manageable = True\<rparr>"
  by (simp add: announce_target_def demo_world_def demo_row_def demo_guild_def find_channels_def)

theorem joined_is_roster_difference_witness:
  "\<exists>pl ls loc' w'.
     query_phase 7 demo_guild (Inr (4, 20, [''bob'', ''dee'', ''ann'', ''eve''], ''hello'')) 1600000000
       start_locals demo_world = Inr (pl, ls, loc', w') \<and>
     t_names w' 7 = [''bob'', ''dee'', ''ann'', ''eve''] \<and>
     events w' = [Send 7 1 ''dee joined the game!'', Send 7 1 ''eve joined the game!'']"
proof -
  obtain pl ls loc' w' where
    q: "query_phase 7 demo_guild (Inr (4, 20, [''bob'', ''dee'', ''ann'', ''eve''], ''hello'')) 1600000000
          start_locals demo_world = Inr (pl, ls, loc', w')"
    using query_phase_success[OF demo_rows] by blast
  have e0: "events demo_world = []" and tn: "t_names demo_world 7 = [''ann'', ''bob'', ''cy'']"
    by (simp_all add: demo_world_def)
  have j: "jNames [''bob'', ''dee'', ''ann'', ''eve''] [''ann'', ''bob'', ''cy''] = [''dee'', ''eve'']"
    by (simp add: jNames_def)
  from q joined_is_roster_difference[of "[''bob'', ''dee'', ''ann'', ''eve'']" "[]" 7 demo_guild 4 20
      "''hello''" 1600000000 start_locals demo_world pl ls loc' w']
  have "t_names w' 7 = [''bob'', ''dee'', ''ann'', ''eve'']"
    and "events w' = events demo_world @ join_events 7 (announce_target demo_world 7 demo_guild)
           (jNames [''bob'', ''dee'', ''ann'', ''eve''] (t_names demo_world 7))"
    by simp_all
  then have "t_names w' 7 = [''bob'', ''dee'', ''ann'', ''eve'']"
    and "events w' = [Send 7 1 ''dee joined the game!'', Send 7 1 ''eve joined the game!'']"
    by (simp_all add: e0 tn j demo_announce_target join_events_def)
  with q show ?thesis by blast
qed

subsection \<open>The status command\<close>

lemma hms_minutes: "(y::int) mod 3600 div 60 = y div 60 mod 60"
proof -
  have "y mod (60 * 60) = 60 * (y div 60 mod 60) + y mod 60"
    by (rule zmod_zmult2_eq) simp
  then show ?thesis by simp
qed

lemma hms_seconds: "(y::int) mod 3600 mod 60 = y mod 60"
  by (simp add: mod_mod_cancel)

lemma total_player_time_hms: "total_player_time s = hms (s mod 86400)"
  unfolding total_player_time_def hms_def Let_def
  by (simp add: hms_minutes hms_seconds)

lemma status_text_suffix:
  "status_text a motd p m s =
     (''Status:'' @ [CHR 0x0A] @ ''  '' @ a @ [CHR 0x0A] @ ''  '' @ motd @ [CHR 0x0A, CHR 0x0A] @
      ''  Players: '' @ str_int p @ ''/'' @ str_int m @ [CHR 0x0A] @ ''  '') @
     ''Total Player Time: '' @ total_player_time s"
  unfolding status_text_def by simp

lemma Other_status_ok:
  assumes "t_servers w (ctx_guild_id c) = Some row" and "t_times w (ctx_guild_id c) = Some t"
  shows "Other_status c (Inr (players, mx, names, motd)) w =
           (None, emit (Send (ctx_guild_id c) (ctx_channel c)
                          (''```'' @ status_text (ip row) motd players mx (py_int t) @ ''```'')) w)"
  using assms by (simp add: Other_status_def getMCIP_def getPersonSeconds_def safe_send_ctx_def)

text \<open>
  C9. For a guild with its rows in the store and a query that answers, the \<open>status\<close>
  command posts one message, which ends in "Total Player Time: " and the accumulated
  seconds (as \<open>getPersonSeconds\<close> reads them) reduced modulo 86400 and written as
  \<open>H:MM:SS\<close>. The hours shown stay below 24, and a total of a day more shows the same
  time: the display wraps around instead of showing the running total.
\<close>

theorem status_time_wraps_at_24h:
  assumes "t_servers w (ctx_guild_id c) = Some row" and "t_times w (ctx_guild_id c) = Some t"
  shows "(\<exists>pre. Other_status c (Inr (players, mx, names, motd)) w =
            (None, emit (Send (ctx_guild_id c) (ctx_channel c)
               (''```'' @ pre @ ''Total Player Time: '' @ hms (py_int t mod 86400) @ ''```'')) w)) \<and>
         total_player_time (py_int t) = hms (py_int t mod 86400) \<and>
         0 \<le> py_int t mod 86400 div 3600 \<and> py_int t mod 86400 div 3600 < 24 \<and>
         total_player_time (py_int t + 86400) = total_player_time (py_int t)"
proof -
  have "Other_status c (Inr (players, mx, names, motd)) w =
          (None, emit (Send (ctx_guild_id c) (ctx_channel c)
             (''```'' @ status_text (ip row) motd players mx (py_int t) @ ''```'')) w)"
    using assms by (rule Other_status_ok)
  then have 1: "\<exists>pre. Other_status c (Inr (players, mx, names, motd)) w =
            (None, emit (Send (ctx_guild_id c) (ctx_channel c)
               (''```'' @ pre @ ''Total Player Time: '' @ hms (py_int t mod 86400) @ ''```'')) w)"
    unfolding status_text_suffix total_player_time_hms by (metis append.assoc)
  have "0 \<le> py_int t mod 86400" "py_int t mod 86400 < 86400" by simp_all
  then have 2: "0 \<le> py_int t mod 86400 div 3600 \<and> py_int t mod 86400 div 3600 < 24"
    by linarith
  show ?thesis using 1 2 by (simp add: total_player_time_hms)
qed

theorem status_time_wraps_at_24h_witness:
  "\<exists>pre. Other_status demo_ctx (Inr (3, 20, [''ann'', ''bob'', ''cy''], ''hello''))
            (demo_world\<lparr>t_times := [7 \<mapsto> 90061]\<rparr>) =
          (None, emit (Send 7 1 (''```'' @ pre @ ''Total Player Time: 1:01:01```''))
                   (demo_world\<lparr>t_times := [7 \<mapsto> 90061]\<rparr>))"
proof -
  have h: "hms (py_int 90061 mod 86400) = ''1:01:01''"
    by (simp add: hms_def py_int_def str_int_def fmt_02d_def str_nat.simps digit_char_def)
  from status_time_wraps_at_24h[of "demo_world\<lparr>t_times := [7 \<mapsto> 90061]\<rparr>" demo_ctx demo_row 90061
      3 20 "[''ann'', ''bob'', ''cy'']" "''hello''"]
  show ?thesis
    by (simp add: h demo_world_def demo_ctx_def)
qed

subsection \<open>Frame lemmas for the platform calls\<close>

lemma emit_fields [simp]:
  "guilds (emit e w) = guilds w" "servers (emit e w) = servers w"
  "t_servers (emit e w) = t_servers w" "t_names (emit e w) = t_names w"
  "t_times (emit e w) = t_times w" "events (emit e w) = events w @ [e]"
  by (simp_all add: emit_def)

lemma upd_channels_fields [simp]:
  "servers (upd_channels sid f w) = servers w"
  "t_servers (upd_channels sid f w) = t_servers w" "t_names (upd_channels sid f w) = t_names w"
  "t_times (upd_channels sid f w) = t_times w" "events (upd_channels sid f w) = events w"
  by (simp_all add: upd_channels_def split: option.splits)

lemma guilds_upd_channels:
  "guilds (upd_channels sid f w) =
     (guilds w)(sid := map_option (\<lambda>g. g\<lparr>g_channels := f (g_channels g)\<rparr>) (guilds w sid))"
  by (auto simp: upd_channels_def split: option.splits)

lemma new_events_append: "events w' = events w @ evs \<Longrightarrow> new_events w w' = evs"
  by (simp add: new_events_def)

subsection \<open>Teardown\<close>

lemma delete_all_flag: "fst (delete_all sid cs w) = list_all c_manageable cs"
  by (induction cs arbitrary: w) (auto simp: delete_def Let_def split: prod.splits)

lemma delete_all_store:
  "servers (snd (delete_all sid cs w)) = servers w \<and>
   t_servers (snd (delete_all sid cs w)) = t_servers w \<and>
   t_names (snd (delete_all sid cs w)) = t_names w \<and>
   t_times (snd (delete_all sid cs w)) = t_times w"
  by (induction cs arbitrary: w) (auto simp: delete_def Let_def split: prod.splits)

lemma delete_all_events:
  "events (snd (delete_all sid cs w)) =
     events w @ map (\<lambda>c. Delete sid (c_id c) (c_manageable c)) (attempted cs)"
  by (induction cs arbitrary: w) (auto simp: delete_def Let_def attempted_def split: prod.splits)

lemma delete_all_guilds:
  "guilds (snd (delete_all sid cs w)) =
     (guilds w)(sid := map_option
        (\<lambda>g. g\<lparr>g_channels :=
                 filter (\<lambda>d. c_id d \<notin> c_id ` set (takeWhile c_manageable cs)) (g_channels g)\<rparr>)
        (guilds w sid))"
proof (induction cs arbitrary: w)
  case Nil
  then show ?case by (cases "guilds w sid") (auto simp: fun_upd_idem)
next
  case (Cons c cs)
  show ?case
  proof (cases "c_manageable c")
    case True
    then show ?thesis
      using Cons.IH[of "upd_channels sid (filter (\<lambda>d. c_id d \<noteq> c_id c)) (emit (Delete sid (c_id c) True) w)"]
      by (auto simp: delete_def Let_def guilds_upd_channels option.map_comp comp_def
               intro!: arg_cong[where f = "map_option _"] cong: conj_cong)
  next
    case False
    then show ?thesis
      by (cases "guilds w sid") (auto simp: delete_def Let_def fun_upd_idem)
  qed
qed

lemma do_bot_cleanup_row:
  assumes "t_servers w sid = Some row"
  shows "\<exists>w'. do_bot_cleanup sid cx w = (None, w') \<and>
           servers w' = remove1 sid (servers w) \<and>
           t_servers w' = (t_servers w)(sid := None) \<and>
           t_names w' = (t_names w)(sid := []) \<and>
           t_times w' = (t_times w)(sid := None) \<and>
           guilds w' = (guilds w)(sid := map_option
              (\<lambda>g. g\<lparr>g_channels :=
                 filter (\<lambda>d. c_id d \<notin> c_id ` set (takeWhile c_manageable (display_channels g)))
                   (g_channels g)\<rparr>)
              (guilds w sid)) \<and>
           events w' = events w @ Cleanup sid #
              map (\<lambda>c. Delete sid (c_id c) (c_manageable c))
                (case guilds w sid of None \<Rightarrow> [] | Some g \<Rightarrow> attempted (display_channels g)) @
              (case cx of
                 None \<Rightarrow> []
               | Some c \<Rightarrow>
                   [Send (ctx_guild_id c) (ctx_channel c)
                      (join_sp (cleanup_msg (ip row) (ctx_guild_name c)
                         (case guilds w sid of
                            None \<Rightarrow> False
                          | Some g \<Rightarrow> list_all c_manageable (display_channels g))))])"
proof (cases "guilds w sid")
  case None
  with assms show ?thesis
    by (cases cx)
       (auto simp: do_bot_cleanup_def Let_def get_server_by_id_def getMCIP_def delete_rows_def
          log_msg_def safe_send_ctx_def fun_upd_idem)
next
  case (Some g)
  define w1 where "w1 = emit (Cleanup sid) (w\<lparr>servers := remove1 sid (servers w)\<rparr>)"
  obtain deleted w2 where d: "delete_all sid (display_channels g) w1 = (deleted, w2)"
    by (cases "delete_all sid (display_channels g) w1") blast
  have fl: "deleted = list_all c_manageable (display_channels g)"
    using delete_all_flag[of sid "display_channels g" w1] d by simp
  have st: "servers w2 = servers w1" "t_servers w2 = t_servers w1" "t_names w2 = t_names w1"
    "t_times w2 = t_times w1"
    using delete_all_store[of sid "display_channels g" w1] d by simp_all
  have ev: "events w2 = events w1 @
      map (\<lambda>c. Delete sid (c_id c) (c_manageable c)) (attempted (display_channels g))"
    using delete_all_events[of sid "display_channels g" w1] d by simp
  have gu: "guilds w2 = (guilds w1)(sid := map_option
        (\<lambda>g'. g'\<lparr>g_channels :=
           filter (\<lambda>d. c_id d \<notin> c_id ` set (takeWhile c_manageable (display_channels g)))
             (g_channels g')\<rparr>)
        (guilds w1 sid))"
    using delete_all_guilds[of sid "display_channels g" w1] d by simp
  have w1: "guilds w1 = guilds w" "servers w1 = remove1 sid (servers w)" "t_servers w1 = t_servers w"
    "t_names w1 = t_names w" "t_times w1 = t_times w" "events w1 = events w @ [Cleanup sid]"
    by (simp_all add: w1_def)
  have "do_bot_cleanup sid cx w =
          (None, case cx of
                   None \<Rightarrow> delete_rows sid w2
                 | Some c \<Rightarrow> log_msg c (cleanup_msg (ip row) (ctx_guild_name c) deleted) (delete_rows sid w2))"
    using assms Some d st w1
    by (cases cx)
       (simp_all add: do_bot_cleanup_def Let_def get_server_by_id_def getMCIP_def w1_def[symmetric])
  then show ?thesis
    using Some st w1 ev gu fl
    by (cases cx) (simp_all add: delete_rows_def log_msg_def safe_send_ctx_def)
qed

lemma do_bot_cleanup_no_row:
  assumes "t_servers w sid = None"
  shows "\<exists>w'. do_bot_cleanup sid cx w = (Some TypeError, w') \<and>
           servers w' = remove1 sid (servers w) \<and>
           t_servers w' = t_servers w \<and> t_names w' = t_names w \<and> t_times w' = t_times w \<and>
           events w' = events w @ Cleanup sid #
              map (\<lambda>c. Delete sid (c_id c) (c_manageable c))
                (case guilds w sid of None \<Rightarrow> [] | Some g \<Rightarrow> attempted (display_channels g))"
proof (cases "guilds w sid")
  case None
  with assms show ?thesis
    by (auto simp: do_bot_cleanup_def Let_def get_server_by_id_def getMCIP_def)
next
  case (Some g)
  define w1 where "w1 = emit (Cleanup sid) (w\<lparr>servers := remove1 sid (servers w)\<rparr>)"
  obtain deleted w2 where d: "delete_all sid (display_channels g) w1 = (deleted, w2)"
    by (cases "delete_all sid (display_channels g) w1") blast
  have st: "servers w2 = servers w1" "t_servers w2 = t_servers w1" "t_names w2 = t_names w1"
    "t_times w2 = t_times w1"
    using delete_all_store[of sid "display_channels g" w1] d by simp_all
  have ev: "events w2 = events w1 @
      map (\<lambda>c. Delete sid (c_id c) (c_manageable c)) (attempted (display_channels g))"
    using delete_all_events[of sid "display_channels g" w1] d by simp
  have w1: "guilds w1 = guilds w" "servers w1 = remove1 sid (servers w)" "t_servers w1 = t_servers w"
    "t_names w1 = t_names w" "t_times w1 = t_times w" "events w1 = events w @ [Cleanup sid]"
    by (simp_all add: w1_def)
  have "do_bot_cleanup sid cx w = (Some TypeError, w2)"
    using assms Some d st w1
    by (simp add: do_bot_cleanup_def Let_def get_server_by_id_def getMCIP_def w1_def[symmetric])
  then show ?thesis
    using Some st w1 ev by simp
qed

text \<open>
  C7, as the code has it. For a tenant whose configuration row is in the store, teardown
  returns without an exception; it attempts the deletion of the display channels (address,
  player-count, accumulated-time matches, in this order) up to and including the first one
  the platform forbids, and of no channel after that one; the channels deleted before it
  are gone from the guild; the flag \<open>deleted\<close> reported in the reply tells whether all
  deletions went through. Whatever happens to the channels, the three rows of the tenant
  are deleted and one entry of the tenant leaves the registry.
\<close>

theorem teardown_stops_at_first_forbidden_delete:
  assumes "t_servers w sid = Some row" and "guilds w sid = Some g"
  shows "\<exists>w'. do_bot_cleanup sid cx w = (None, w') \<and>
           t_servers w' sid = None \<and> t_names w' sid = [] \<and> t_times w' sid = None \<and>
           servers w' = remove1 sid (servers w) \<and>
           map_option g_channels (guilds w' sid) =
             Some (filter (\<lambda>d. c_id d \<notin> c_id ` set (takeWhile c_manageable (display_channels g)))
                     (g_channels g)) \<and>
           events w' = events w @ Cleanup sid #
              map (\<lambda>c. Delete sid (c_id c) (c_manageable c)) (attempted (display_channels g)) @
              (case cx of
                 None \<Rightarrow> []
               | Some c \<Rightarrow>
                   [Send (ctx_guild_id c) (ctx_channel c)
                      (join_sp (cleanup_msg (ip row) (ctx_guild_name c)
                         (list_all c_manageable (display_channels g))))])"
  using do_bot_cleanup_row[OF assms(1), of cx] assms(2) by (cases cx) auto

lemma locked_display_channels:
  "display_channels locked_guild =
     [\<lparr>c_id = 2, c_name = ''IP: old.example.com'', c_type = voice, c_manageable = False\<rparr>,
      \<lparr>c_id = 3, c_name = ''Players: 3/20'', c_type = voice, c_manageable = True\<rparr>]"
  by (simp add: display_channels_def find_channels_def locked_guild_def)

lemma locked_world_fields:
  "guilds locked_world 7 = Some locked_guild" "t_servers locked_world 7 = Some demo_row"
  "t_times locked_world 7 = Some 5000" "servers locked_world = [7]" "events locked_world = []"
  "t_names locked_world 7 = [''ann'', ''bob'', ''cy'']"
  by (simp_all add: locked_world_def demo_world_def)

theorem teardown_stops_at_first_forbidden_delete_witness:
  "\<exists>w'. do_bot_cleanup 7 None locked_world = (None, w') \<and>
         t_servers w' 7 = None \<and> t_names w' 7 = [] \<and> t_times w' 7 = None \<and> servers w' = [] \<and>
         map_option g_channels (guilds w' 7) = Some (g_channels locked_guild) \<and>
         events w' = [Cleanup 7, Delete 7 2 False]"
  using teardown_stops_at_first_forbidden_delete[of locked_world 7 demo_row locked_guild None]
  by (simp add: locked_world_fields locked_display_channels attempted_def)

text \<open>
  Against C7 as stated: the address display of this guild cannot be deleted, the
  player-count display could be; teardown attempts the first deletion only, and the
  player-count display is still there afterwards.
\<close>

theorem teardown_best_effort_counterexample:
  "\<exists>w'. do_bot_cleanup 7 None locked_world = (None, w') \<and>
         (\<forall>ok. Delete 7 3 ok \<notin> set (events w')) \<and>
         map_option (\<lambda>g. filter (\<lambda>c. c_id c = 3) (g_channels g)) (guilds w' 7) =
           Some [\<lparr>c_id = 3, c_name = ''Players: 3/20'', c_type = voice, c_manageable = True\<rparr>]"
proof -
  obtain w' where w': "do_bot_cleanup 7 None locked_world = (None, w')"
    "guilds w' = (guilds locked_world)(7 := map_option
              (\<lambda>g. g\<lparr>g_channels :=
                 filter (\<lambda>d. c_id d \<notin> c_id ` set (takeWhile c_manageable (display_channels g)))
                   (g_channels g)\<rparr>)
              (guilds locked_world 7))"
    "events w' = events locked_world @ Cleanup 7 #
              map (\<lambda>c. Delete 7 (c_id c) (c_manageable c))
                (case guilds locked_world 7 of None \<Rightarrow> [] | Some g \<Rightarrow> attempted (display_channels g)) @ []"
    using do_bot_cleanup_row[OF locked_world_fields(2), of None] by auto
  have "events w' = [Cleanup 7, Delete 7 2 False]"
    using w'(3) by (simp add: locked_world_fields locked_display_channels attempted_def)
  moreover have "map_option g_channels (guilds w' 7) = Some (g_channels locked_guild)"
    using w'(2) by (simp add: locked_world_fields locked_display_channels)
  ultimately show ?thesis
    using w'(1) by (auto simp: locked_guild_def)
qed

text \<open>
  C3: teardown called again after a teardown. The configuration row is gone, \<open>getMCIP\<close>
  reads \<open>row[0]\<close> of None, and the second call raises \<open>TypeError\<close>.
\<close>

theorem second_teardown_raises:
  "\<exists>w1 w2. do_bot_cleanup 7 None demo_world = (None, w1) \<and>
           do_bot_cleanup 7 None w1 = (Some TypeError, w2)"
proof -
  obtain w1 where w1: "do_bot_cleanup 7 None demo_world = (None, w1)"
    "t_servers w1 = (t_servers demo_world)(7 := None)"
    using do_bot_cleanup_row[OF demo_rows(1), of None] by auto
  then have "t_servers w1 7 = None" by simp
  from do_bot_cleanup_no_row[OF this, of None] w1(1) show ?thesis by auto
qed

subsection \<open>The parts of a pass\<close>

lemma edit_fields [simp]:
  "servers (snd (edit sid c n w)) = servers w" "t_servers (snd (edit sid c n w)) = t_servers w"
  "t_names (snd (edit sid c n w)) = t_names w" "t_times (snd (edit sid c n w)) = t_times w"
  "events (snd (edit sid c n w)) = events w @ [Edit sid (c_id c) n (c_manageable c)]"
  "fst (edit sid c n w) = c_manageable c"
  by (simp_all add: edit_def Let_def)

lemma create_fields [simp]:
  "servers (create_voice_channel sid n w) = servers w"
  "t_servers (create_voice_channel sid n w) = t_servers w"
  "t_names (create_voice_channel sid n w) = t_names w"
  "t_times (create_voice_channel sid n w) = t_times w"
  "events (create_voice_channel sid n w) = events w @ [Create sid n]"
  by (simp_all add: create_voice_channel_def)

lemma cleanup_and_return_row:
  assumes "t_servers w sid = Some row"
  shows "\<exists>w' dels. cleanup_and_return sid w = (Return, w') \<and>
           servers w' = remove1 sid (servers w) \<and>
           t_servers w' sid = None \<and> t_names w' sid = [] \<and> t_times w' sid = None \<and>
           events w' = events w @ Cleanup sid # dels \<and> list_all is_delete dels"
proof -
  obtain w' where w': "do_bot_cleanup sid None w = (None, w')"
    "servers w' = remove1 sid (servers w)" "t_servers w' = (t_servers w)(sid := None)"
    "t_names w' = (t_names w)(sid := [])" "t_times w' = (t_times w)(sid := None)"
    "events w' = events w @ Cleanup sid #
              map (\<lambda>c. Delete sid (c_id c) (c_manageable c))
                (case guilds w sid of None \<Rightarrow> [] | Some g \<Rightarrow> attempted (display_channels g)) @ []"
    using do_bot_cleanup_row[OF assms, of None] by auto
  have "list_all is_delete (map (\<lambda>c. Delete sid (c_id c) (c_manageable c))
                (case guilds w sid of None \<Rightarrow> [] | Some g \<Rightarrow> attempted (display_channels g)))"
    by (simp add: list_all_iff is_delete_def)
  with w' show ?thesis
    by (simp add: cleanup_and_return_def)
qed

lemma forbidden_exit_ok:
  assumes "t_servers w sid = Some row" and that: "\<not> c_manageable c"
  shows "step_ok sid w (cleanup_and_return sid (snd (edit sid c n w)))"
proof -
  have "t_servers (snd (edit sid c n w)) sid = Some row" using assms by simp
  from cleanup_and_return_row[OF this] obtain w' dels where
    w': "cleanup_and_return sid (snd (edit sid c n w)) = (Return, w')"
    "servers w' = remove1 sid (servers w)" "t_servers w' sid = None" "t_names w' sid = []"
    "t_times w' sid = None"
    "events w' = events w @ [Edit sid (c_id c) n (c_manageable c)] @ Cleanup sid # dels"
    "list_all is_delete dels"
    by auto
  have "events w' = events w @ [] @ Edit sid (c_id c) n False # Cleanup sid # dels"
    using w'(6) that by simp
  moreover have "list_all carried_out []" by simp
  ultimately have "\<exists>evs c n dels.
              events w' = events w @ evs @ Edit sid c n False # Cleanup sid # dels \<and>
              list_all carried_out evs \<and> list_all is_delete dels"
    using w'(7) by blast
  then show ?thesis
    using w' by (simp add: step_ok_def)
qed

lemma rename_step_ok:
  assumes "t_servers w sid = Some row"
  shows "step_ok sid w
           (case edit sid c n w of
              (True, w1) \<Rightarrow> (Sleep 301, w1)
            | (False, w1) \<Rightarrow> cleanup_and_return sid w1)"
proof -
  obtain b w1 where e: "edit sid c n w = (b, w1)" by (cases "edit sid c n w")
  have f: "b = c_manageable c" "servers w1 = servers w" "t_servers w1 = t_servers w"
    "t_names w1 = t_names w" "t_times w1 = t_times w"
    "events w1 = events w @ [Edit sid (c_id c) n (c_manageable c)]"
    using edit_fields[of sid c n w] e by simp_all
  show ?thesis
  proof (cases b)
    case True
    have "list_all carried_out [Edit sid (c_id c) n (c_manageable c)]"
      using True f(1) by (simp add: carried_out_def)
    then show ?thesis
      using e f True by (simp add: step_ok_def same_store_def)
  next
    case False
    then show ?thesis
      using forbidden_exit_ok[OF assms, of c n] e f(1) by simp
  qed
qed

lemma step_ok_same: "step_ok sid w (Sleep wt, w)" "step_ok sid w (Raise e, w)"
  by (simp_all add: step_ok_def same_store_def)

lemma step_ok_create: "step_ok sid w (Sleep wt, create_voice_channel sid n w)"
  by (simp add: step_ok_def same_store_def carried_out_def)

lemma ip_display_ok:
  assumes "t_servers w sid = Some row"
  shows "step_ok sid w (ip_display sid a cs wait w)"
  unfolding ip_display_def Let_def
  by (cases cs) (simp_all add: step_ok_same step_ok_create rename_step_ok[OF assms])

lemma players_display_ok:
  assumes "t_servers w sid = Some row"
  shows "step_ok sid w (players_display sid p mx cs wait w)"
  unfolding players_display_def Let_def
  by (cases cs; cases mx)
     (simp_all add: step_ok_same step_ok_create rename_step_ok[OF assms])

lemma hours_display_ok:
  assumes "t_servers w sid = Some row"
  shows "step_ok sid w (hours_display sid ls loc cs wait w)"
  unfolding hours_display_def Let_def getShowHours_def
  using assms
  by (cases cs; cases "names_v loc"; cases "currTime_v loc"; cases "lastTime_v loc")
     (simp_all add: step_ok_same step_ok_create rename_step_ok[OF assms])

lemma step_ok_trans:
  assumes "step_ok sid w (Sleep wt, w1)" and "step_ok sid w1 r"
  shows "step_ok sid w r"
proof -
  from assms(1) obtain evs1 where
    1: "same_store w w1" "events w1 = events w @ evs1" "list_all carried_out evs1"
    by (auto simp: step_ok_def)
  show ?thesis
  proof (cases "fst r = Return")
    case True
    with assms(2) obtain evs c n dels where
      2: "events (snd r) = events w1 @ evs @ Edit sid c n False # Cleanup sid # dels"
      "list_all carried_out evs" "list_all is_delete dels"
      by (auto simp: step_ok_def)
    have "events (snd r) = events w @ (evs1 @ evs) @ Edit sid c n False # Cleanup sid # dels"
      using 1(2) 2(1) by simp
    moreover have "list_all carried_out (evs1 @ evs)" using 1(3) 2(2) by simp
    ultimately have "\<exists>evs c n dels.
              events (snd r) = events w @ evs @ Edit sid c n False # Cleanup sid # dels \<and>
              list_all carried_out evs \<and> list_all is_delete dels"
      using 2(3) by blast
    then show ?thesis
      using True assms(2) 1(1) by (simp add: step_ok_def same_store_def)
  next
    case False
    with assms(2) obtain evs where
      2: "same_store w1 (snd r)" "events (snd r) = events w1 @ evs" "list_all carried_out evs"
      by (auto simp: step_ok_def)
    have "events (snd r) = events w @ (evs1 @ evs)" using 1(2) 2(2) by simp
    moreover have "list_all carried_out (evs1 @ evs)" using 1(3) 2(3) by simp
    ultimately have "\<exists>evs. events (snd r) = events w @ evs \<and> list_all carried_out evs"
      by blast
    then show ?thesis
      using False 1(1) 2(1) by (simp add: step_ok_def same_store_def)
  qed
qed

lemma step_ok_row:
  "step_ok sid w (Sleep wt, w1) \<Longrightarrow> t_servers w sid = Some row \<Longrightarrow> t_servers w1 sid = Some row"
  by (simp add: step_ok_def same_store_def)

lemma display_phase_ok:
  assumes "t_servers w sid = Some row"
  shows "step_ok sid w (display_phase sid g a p ls loc w)"
proof -
  let ?i = "find_channels g None (Some ''IP: '') ''in'' (Some voice)"
  let ?p = "find_channels g None (Some ''Players: '') ''in'' (Some voice)"
  let ?t = "find_channels g None (Some ''Player Hrs: '') ''in'' (Some voice)"
  obtain o1 w1 where s1: "ip_display sid a ?i 10 w = (o1, w1)" by (cases "ip_display sid a ?i 10 w")
  have ok1: "step_ok sid w (o1, w1)" using ip_display_ok[OF assms, of a ?i 10] s1 by simp
  show ?thesis
  proof (cases o1)
    case (Sleep wait1)
    have r1: "t_servers w1 sid = Some row" using ok1 assms Sleep by (simp add: step_ok_row)
    obtain o2 w2 where s2: "players_display sid p (max_v loc) ?p wait1 w1 = (o2, w2)"
      by (cases "players_display sid p (max_v loc) ?p wait1 w1")
    have ok2: "step_ok sid w1 (o2, w2)" using players_display_ok[OF r1, of p "max_v loc" ?p wait1] s2 by simp
    show ?thesis
    proof (cases o2)
      case (Sleep wait2)
      have r2: "t_servers w2 sid = Some row" using ok2 r1 Sleep by (simp add: step_ok_row)
      have "step_ok sid w2 (hours_display sid ls loc ?t wait2 w2)" by (rule hours_display_ok[OF r2])
      then have "step_ok sid w1 (hours_display sid ls loc ?t wait2 w2)"
        using ok2 Sleep step_ok_trans by blast
      then have "step_ok sid w (hours_display sid ls loc ?t wait2 w2)"
        using ok1 \<open>o1 = Sleep wait1\<close> step_ok_trans by blast
      then show ?thesis
        using s1 s2 Sleep \<open>o1 = Sleep wait1\<close> by (simp add: display_phase_def)
    next
      case Return
      have "step_ok sid w (o2, w2)" using ok1 ok2 \<open>o1 = Sleep wait1\<close> step_ok_trans by blast
      then show ?thesis using s1 s2 Return \<open>o1 = Sleep wait1\<close> by (simp add: display_phase_def)
    next
      case (Raise e)
      have "step_ok sid w (o2, w2)" using ok1 ok2 \<open>o1 = Sleep wait1\<close> step_ok_trans by blast
      then show ?thesis using s1 s2 Raise \<open>o1 = Sleep wait1\<close> by (simp add: display_phase_def)
    qed
  next
    case Return
    then show ?thesis using ok1 s1 by (simp add: display_phase_def)
  next
    case (Raise e)
    then show ?thesis using ok1 s1 by (simp add: display_phase_def)
  qed
qed

subsection \<open>A pass of the loop\<close>

lemma status_iter_running:
  assumes "guilds w sid = Some g" and "sid \<in> set (servers w)" and "t_servers w sid = Some row"
    and "ip row \<noteq> []"
  shows "status_iter sid inp loc w =
           (case query_phase sid g (fst inp) (snd inp) loc w of
              Inl e \<Rightarrow> (Raise e, loc, w)
            | Inr (players, lastSeconds, loc1, w1) \<Rightarrow>
                (case display_phase sid g (ip row) players lastSeconds loc1 w1 of
                   (r, w2) \<Rightarrow> (r, loc1, w2)))"
  using assms by (simp add: status_iter_def get_server_by_id_def getMCIP_def)

lemma query_phase_failure: "query_phase sid g (Inl f) now loc w = Inr (- 1, - 1, loc, w)"
  by (simp add: query_phase_def)

lemma carried_out_join_events: "list_all carried_out (join_events sid target ns)"
  by (cases target) (simp_all add: join_events_def carried_out_def list_all_iff)

lemma query_phase_Inr:
  assumes "query_phase sid g q now loc w = Inr (pl, ls, loc1, w1)" and "t_servers w sid = Some row"
  shows "servers w1 = servers w \<and> guilds w1 = guilds w \<and>
         (\<exists>row'. t_servers w1 sid = Some row' \<and> ip row' = ip row \<and> hours row' = hours row) \<and>
         (\<exists>evs. events w1 = events w @ evs \<and> list_all carried_out evs)"
proof (cases q)
  case (Inl f)
  with assms show ?thesis by (simp add: query_phase_failure)
next
  case (Inr st)
  obtain p m names d where st: "st = (p, m, names, d)" by (cases st)
  from assms(1) Inr st obtain row0 t where rows: "t_servers w sid = Some row0" "t_times w sid = Some t"
    using query_phase_Inr_rows by blast
  from query_phase_success[OF rows, of g p m names d now loc] assms(1) Inr st
  have "servers w1 = servers w" "guilds w1 = guilds w"
    "t_servers w1 = (t_servers w)(sid \<mapsto> row0\<lparr>last_query := Some (now - now mod 1000000)\<rparr>)"
    "events w1 = events w @ join_events sid (announce_target w sid g) (jNames names (t_names w sid))"
    by auto
  then show ?thesis
    using rows(1) assms(2) carried_out_join_events by auto
qed

lemma events_gained: "events w' = events w @ evs \<Longrightarrow> new_events w w' = evs"
  by (simp add: new_events_def)

lemma not_carried_out [simp]: "\<not> carried_out (Edit sid c n False)" "\<not> carried_out (Cleanup sid)"
  by (simp_all add: carried_out_def)

lemma not_is_delete [simp]: "\<not> is_delete (Edit sid c n b)" "\<not> is_delete (Cleanup sid)"
  by (simp_all add: is_delete_def)

lemma step_ok_forbidden:
  assumes "step_ok sid w (out, w')" and "Edit sid c n False \<in> set (new_events w w')"
  shows "out = Return"
proof (rule ccontr)
  assume "out \<noteq> Return"
  with assms(1) obtain evs where "events w' = events w @ evs" "list_all carried_out evs"
    by (auto simp: step_ok_def)
  with assms(2) have "carried_out (Edit sid c n False)"
    by (auto simp: events_gained list_all_iff)
  then show False by simp
qed

lemma count_list_none: "\<forall>x\<in>set xs. x \<noteq> y \<Longrightarrow> count_list xs y = 0"
  by (induction xs) auto

lemma step_ok_Return:
  assumes "step_ok sid w (Return, w')"
  shows "servers w' = remove1 sid (servers w) \<and> t_servers w' sid = None \<and> t_names w' sid = [] \<and>
         t_times w' sid = None \<and> count_list (new_events w w') (Cleanup sid) = 1 \<and>
         (\<exists>c n. Edit sid c n False \<in> set (new_events w w'))"
proof -
  from assms obtain evs c n dels where
    e: "events w' = events w @ evs @ Edit sid c n False # Cleanup sid # dels"
    "list_all carried_out evs" "list_all is_delete dels"
    by (auto simp: step_ok_def)
  have "count_list evs (Cleanup sid) = 0" "count_list dels (Cleanup sid) = 0"
    using e(2,3) by (auto simp: list_all_iff intro!: count_list_none)
  then have "count_list (new_events w w') (Cleanup sid) = 1"
    using e(1) by (simp add: events_gained)
  moreover have "Edit sid c n False \<in> set (new_events w w')"
    using e(1) by (simp add: events_gained)
  ultimately show ?thesis
    using assms by (auto simp: step_ok_def)
qed

text \<open>
  A pass on a tenant that is visible, registered and configured with an address: either it
  raises before any write, or its query phase only posts join messages and the display phase
  behaves as \<open>step_ok\<close> says.
\<close>

lemma status_iter_cases:
  assumes "guilds w sid = Some g" and "sid \<in> set (servers w)" and "t_servers w sid = Some row"
    and "ip row \<noteq> []" and "status_iter sid (q, now) loc w = (out, loc', w')"
  shows "(\<exists>e. out = Raise e \<and> w' = w \<and> loc' = loc \<and> query_phase sid g q now loc w = Inl e) \<or>
         (\<exists>pl ls w1. query_phase sid g q now loc w = Inr (pl, ls, loc', w1) \<and>
            display_phase sid g (ip row) pl ls loc' w1 = (out, w') \<and> step_ok sid w1 (out, w'))"
proof (cases "query_phase sid g q now loc w")
  case (Inl e)
  with assms show ?thesis by (auto simp: status_iter_running)
next
  case (Inr r)
  obtain pl ls loc1 w1 where r: "r = (pl, ls, loc1, w1)" by (cases r)
  from query_phase_Inr[OF Inr[unfolded r] assms(3)] obtain row' where
    row': "t_servers w1 sid = Some row'" by blast
  obtain o2 w2 where d: "display_phase sid g (ip row) pl ls loc1 w1 = (o2, w2)"
    by (cases "display_phase sid g (ip row) pl ls loc1 w1")
  have "step_ok sid w1 (o2, w2)" using display_phase_ok[OF row', of g "ip row" pl ls loc1] d by simp
  moreover have "out = o2" "loc' = loc1" "w' = w2"
    using assms Inr r d by (simp_all add: status_iter_running)
  ultimately show ?thesis using Inr r d by simp
qed

lemma status_iter_not_running:
  assumes "status_iter sid inp loc w = (out, loc', w')"
    and "\<not> (\<exists>g row. guilds w sid = Some g \<and> sid \<in> set (servers w) \<and> t_servers w sid = Some row \<and> ip row \<noteq> [])"
  shows "\<forall>c n b. Edit sid c n b \<notin> set (new_events w w')"
proof (cases "guilds w sid")
  case None
  show ?thesis
  proof (cases "t_servers w sid")
    case N: None
    from do_bot_cleanup_no_row[OF N, of None] None assms(1)
    have "events w' = events w @ [Cleanup sid]"
      by (auto simp: status_iter_def get_server_by_id_def cleanup_and_return_def)
    then show ?thesis by (simp add: events_gained)
  next
    case (Some row)
    from do_bot_cleanup_row[OF Some, of None] None assms(1)
    have "events w' = events w @ [Cleanup sid]"
      by (auto simp: status_iter_def get_server_by_id_def cleanup_and_return_def)
    then show ?thesis by (simp add: events_gained)
  qed
next
  case (Some g)
  with assms have "w' = w"
    by (auto simp: status_iter_def get_server_by_id_def getMCIP_def split: if_splits option.splits)
  then show ?thesis by (simp add: new_events_def)
qed


lemma locked_channels:
  "find_channels locked_guild None (Some ''IP: '') ''in'' (Some voice) =
     [\<lparr>c_id = 2, c_name = ''IP: old.example.com'', c_type = voice, c_manageable = False\<rparr>]"
  "find_channels locked_guild None (Some ''Players: '') ''in'' (Some voice) =
     [\<lparr>c_id = 3, c_name = ''Players: 3/20'', c_type = voice, c_manageable = True\<rparr>]"
  "find_channels locked_guild None (Some ''Player Hrs: '') ''in'' (Some voice) = []"
  by (simp_all add: find_channels_def locked_guild_def)

lemma locked_pass_timeout:
  "\<exists>w' dels. status_iter 7 (Inl TimeoutError, 1600000000) start_locals locked_world =
                (Return, start_locals, w') \<and>
             events w' = Edit 7 2 ''IP: mc.example.com'' False # Cleanup 7 # dels \<and>
             list_all is_delete dels \<and>
             map_option g_channels (guilds w' 7) = Some (g_channels locked_guild)"
proof -
  let ?c = "\<lparr>c_id = 2, c_name = ''IP: old.example.com'', c_type = voice, c_manageable = False\<rparr>"
  let ?w1 = "snd (edit 7 ?c ''IP: mc.example.com'' locked_world)"
  have r: "t_servers ?w1 7 = Some demo_row" by (simp add: locked_world_fields)
  have g: "guilds ?w1 7 = Some locked_guild" by (simp add: edit_def Let_def locked_world_fields)
  from do_bot_cleanup_row[OF r, of None] obtain w' where
    w': "do_bot_cleanup 7 None ?w1 = (None, w')"
    "events w' = events ?w1 @ Cleanup 7 #
        map (\<lambda>c. Delete 7 (c_id c) (c_manageable c))
          (case guilds ?w1 7 of None \<Rightarrow> [] | Some g \<Rightarrow> attempted (display_channels g)) @ []"
    "guilds w' = (guilds ?w1)(7 := map_option
              (\<lambda>g. g\<lparr>g_channels :=
                 filter (\<lambda>d. c_id d \<notin> c_id ` set (takeWhile c_manageable (display_channels g)))
                   (g_channels g)\<rparr>)
              (guilds ?w1 7))"
    by auto
  have ip: "ip_display 7 ''mc.example.com'' [?c] 10 locked_world = (Return, w')"
    using w'(1)
    by (simp add: ip_display_def Let_def chan_name_def locked_world_fields locked_guild_def
        edit_def cleanup_and_return_def)
  have "status_iter 7 (Inl TimeoutError, 1600000000) start_locals locked_world =
          (Return, start_locals, w')"
    using ip
    by (simp add: status_iter_running[OF locked_world_fields(1) _ locked_world_fields(2)]
        locked_world_fields demo_row_def query_phase_failure display_phase_def locked_channels)
  moreover have "events w' = Edit 7 2 ''IP: mc.example.com'' False # Cleanup 7 #
      map (\<lambda>c. Delete 7 (c_id c) (c_manageable c)) (attempted (display_channels locked_guild))"
    using w'(2) g by (simp add: locked_world_fields)
  moreover have "list_all is_delete
      (map (\<lambda>c. Delete 7 (c_id c) (c_manageable c)) (attempted (display_channels locked_guild)))"
    by (simp add: list_all_iff is_delete_def)
  moreover have "map_option g_channels (guilds w' 7) = Some (g_channels locked_guild)"
    using w'(3) g by (simp add: locked_display_channels)
  ultimately show ?thesis by blast
qed


subsection \<open>Passes whose query succeeds\<close>

text \<open>What a pass with a successful query has written when it does not end in a teardown.\<close>

lemma status_iter_success:
  assumes "guilds w sid = Some g" and "sid \<in> set (servers w)" and "t_servers w sid = Some row"
    and "ip row \<noteq> []" and "t_times w sid = Some t"
    and "status_iter sid (Inr (p, m, names, d), now) loc w = (out, loc', w')"
    and "out \<noteq> Return"
  shows "loc' = loc\<lparr>max_v := Some m, names_v := Some names, currTime_v := Some now,
                    lastTime_v := Some (case last_query row of None \<Rightarrow> now | Some l \<Rightarrow> l)\<rparr> \<and>
         servers w' = servers w \<and>
         t_names w' = (t_names w)(sid := names) \<and>
         t_servers w' = (t_servers w)(sid \<mapsto> row\<lparr>last_query := Some (now - now mod 1000000)\<rparr>) \<and>
         t_times w' = (t_times w)(sid \<mapsto>
            (if first_iter loc then t
             else t + of_nat (length names) *
                    total_seconds (now - (case last_query row of None \<Rightarrow> now | Some l \<Rightarrow> l))))"
proof -
  from query_phase_success[OF assms(3,5), of g p m names d now loc] obtain w1 where
    q: "query_phase sid g (Inr (p, m, names, d)) now loc w =
           Inr (p, py_int t,
                loc\<lparr>max_v := Some m, names_v := Some names, currTime_v := Some now,
                    lastTime_v := Some (case last_query row of None \<Rightarrow> now | Some l \<Rightarrow> l)\<rparr>,
                w1)"
    and w1: "servers w1 = servers w" "t_names w1 = (t_names w)(sid := names)"
      "t_servers w1 = (t_servers w)(sid \<mapsto> row\<lparr>last_query := Some (now - now mod 1000000)\<rparr>)"
      "t_times w1 = (t_times w)(sid \<mapsto>
            (if first_iter loc then t
             else t + of_nat (length names) *
                    total_seconds (now - (case last_query row of None \<Rightarrow> now | Some l \<Rightarrow> l))))"
    by blast
  from status_iter_cases[OF assms(1-4,6)] q
  have "loc' = loc\<lparr>max_v := Some m, names_v := Some names, currTime_v := Some now,
                    lastTime_v := Some (case last_query row of None \<Rightarrow> now | Some l \<Rightarrow> l)\<rparr>"
    and "step_ok sid w1 (out, w')"
    by auto
  then show ?thesis
    using w1 assms(7) by (simp add: step_ok_def same_store_def)
qed

lemma total_seconds_nonneg: "0 \<le> us \<Longrightarrow> 0 \<le> total_seconds us"
  by (simp add: total_seconds_def)


lemma demo_world_fields:
  "guilds demo_world 7 = Some demo_guild" "servers demo_world = [7]" "events demo_world = []"
  "t_names demo_world 7 = [''ann'', ''bob'', ''cy'']"
  by (simp_all add: demo_world_def)

lemma demo_channels:
  "find_channels demo_guild None (Some ''IP: '') ''in'' (Some voice) =
     [\<lparr>c_id = 2, c_name = ''IP: mc.example.com'', c_type = voice, c_manageable = True\<rparr>]"
  "find_channels demo_guild None (Some ''Players: '') ''in'' (Some voice) =
     [\<lparr>c_id = 3, c_name = ''Players: 3/20'', c_type = voice, c_manageable = True\<rparr>]"
  "find_channels demo_guild None (Some ''Player Hrs: '') ''in'' (Some voice) = []"
  by (simp_all add: find_channels_def demo_guild_def)

lemma str_int_small:
  "str_int 0 = ''0''" "str_int 3 = ''3''" "str_int 20 = ''20''" "str_int (- 1) = ''-1''"
  by (simp_all add: str_int_def str_nat.simps digit_char_def)

text \<open>
  The pass of the demonstration state 600 seconds after its last query, not the first of
  the task, with a roster of the given names and \<open>p\<close> players reported online.
\<close>

lemma demo_pass_sleeps:
  "\<exists>wt loc' w'. status_iter 7 (Inr (p, 20, names, ''hello''), 1600000000)
                   (start_locals\<lparr>first_iter := False\<rparr>) demo_world = (Sleep wt, loc', w')"
proof -
  let ?loc = "start_locals\<lparr>first_iter := False\<rparr>"
  from query_phase_success[OF demo_rows, of demo_guild p 20 names "''hello''" 1600000000 ?loc]
  obtain loc1 w1 where
    q: "query_phase 7 demo_guild (Inr (p, 20, names, ''hello'')) 1600000000 ?loc demo_world =
          Inr (p, py_int 5000, loc1, w1)"
    and l: "loc1 = ?loc\<lparr>max_v := Some 20, names_v := Some names, currTime_v := Some 1600000000,
                    lastTime_v := Some (case last_query demo_row of None \<Rightarrow> 1600000000 | Some l \<Rightarrow> l)\<rparr>"
    and w1: "guilds w1 = guilds demo_world"
      "t_servers w1 = (t_servers demo_world)(7 \<mapsto> demo_row\<lparr>last_query := Some (1600000000 - 1600000000 mod 1000000)\<rparr>)"
    by blast
  have ip: "ip_display 7 ''mc.example.com''
              [\<lparr>c_id = 2, c_name = ''IP: mc.example.com'', c_type = voice, c_manageable = True\<rparr>] 10 w1 =
            (Sleep 10, w1)"
    by (simp add: ip_display_def Let_def chan_name_def w1 demo_world_fields demo_guild_def)
  obtain o2 w2 where pd: "players_display 7 p (max_v loc1)
              [\<lparr>c_id = 3, c_name = ''Players: 3/20'', c_type = voice, c_manageable = True\<rparr>] 10 w1 = (o2, w2)"
    by (cases "players_display 7 p (max_v loc1)
              [\<lparr>c_id = 3, c_name = ''Players: 3/20'', c_type = voice, c_manageable = True\<rparr>] 10 w1")
  have "\<exists>wt2. o2 = Sleep wt2"
    using pd l by (auto simp: players_display_def Let_def edit_def split: if_splits)
  then obtain wt2 where o2: "o2 = Sleep wt2" by blast
  have "step_ok 7 w1 (Sleep wt2, w2)"
    using players_display_ok[of w1 7 _ p "max_v loc1"
        "[\<lparr>c_id = 3, c_name = ''Players: 3/20'', c_type = voice, c_manageable = True\<rparr>]" 10] pd o2 w1(2)
    by simp
  then have r2: "t_servers w2 7 = Some (demo_row\<lparr>last_query := Some (1600000000 - 1600000000 mod 1000000)\<rparr>)"
    using w1(2) by (simp add: step_ok_def same_store_def)
  have "\<exists>wt3 w3. hours_display 7 (py_int 5000) loc1 [] wt2 w2 = (Sleep wt3, w3)"
    using r2 l
    by (simp add: hours_display_def getShowHours_def Let_def)
  then obtain wt3 w3 where hd: "hours_display 7 (py_int 5000) loc1 [] wt2 w2 = (Sleep wt3, w3)"
    by blast
  have "display_phase 7 demo_guild ''mc.example.com'' p (py_int 5000) loc1 w1 = (Sleep wt3, w3)"
    using ip pd o2 hd by (simp add: display_phase_def demo_channels)
  then have "status_iter 7 (Inr (p, 20, names, ''hello''), 1600000000) ?loc demo_world =
               (Sleep wt3, loc1, w3)"
    using q
    by (simp add: status_iter_running[OF demo_world_fields(1) _ demo_rows(1)]
        demo_world_fields demo_row_def)
  then show ?thesis by blast
qed



subsection \<open>The events of a pass\<close>

lemma only_events_refl: "only_events P w w"
  by (simp add: only_events_def)

lemma only_events_trans:
  "only_events P w w1 \<Longrightarrow> only_events P w1 w2 \<Longrightarrow> only_events P w w2"
  by (auto simp: only_events_def)

lemma only_events_mono:
  "only_events P w w' \<Longrightarrow> (\<And>e. P e \<Longrightarrow> Q e) \<Longrightarrow> only_events Q w w'"
  by (auto simp: only_events_def list_all_iff)

lemma only_events_one: "events w' = events w @ [e] \<Longrightarrow> P e \<Longrightarrow> only_events P w w'"
  by (simp add: only_events_def)

lemma only_events_new: "only_events P w w' \<Longrightarrow> e \<in> set (new_events w w') \<Longrightarrow> P e"
  by (auto simp: only_events_def new_events_def list_all_iff)

lemma only_events_subset:
  "only_events P w w1 \<Longrightarrow> only_events Q w1 w' \<Longrightarrow> set (new_events w w1) \<subseteq> set (new_events w w')"
  by (auto simp: only_events_def new_events_def)

lemma cleanup_and_return_events:
  "only_events (\<lambda>e. is_delete e \<or> e = Cleanup sid) w (snd (cleanup_and_return sid w))"
proof (cases "t_servers w sid")
  case None
  from do_bot_cleanup_no_row[OF None, of None] obtain w' where
    "do_bot_cleanup sid None w = (Some TypeError, w')"
    "events w' = events w @ Cleanup sid #
              map (\<lambda>c. Delete sid (c_id c) (c_manageable c))
                (case guilds w sid of None \<Rightarrow> [] | Some g \<Rightarrow> attempted (display_channels g))"
    by blast
  then show ?thesis
    by (auto simp: only_events_def cleanup_and_return_def list_all_iff is_delete_def)
next
  case (Some row)
  from do_bot_cleanup_row[OF Some, of None] obtain w' where
    "do_bot_cleanup sid None w = (None, w')"
    "events w' = events w @ Cleanup sid #
              map (\<lambda>c. Delete sid (c_id c) (c_manageable c))
                (case guilds w sid of None \<Rightarrow> [] | Some g \<Rightarrow> attempted (display_channels g)) @ []"
    by auto
  then show ?thesis
    by (auto simp: only_events_def cleanup_and_return_def list_all_iff is_delete_def)
qed

lemma rename_events:
  "only_events (\<lambda>e. (\<exists>b. e = Edit sid (c_id c) n b) \<or> is_delete e \<or> e = Cleanup sid) w
     (snd (case edit sid c n w of
             (True, w1) \<Rightarrow> (Sleep 301, w1)
           | (False, w1) \<Rightarrow> cleanup_and_return sid w1))"
proof -
  obtain b w1 where e: "edit sid c n w = (b, w1)" by (cases "edit sid c n w")
  have f: "events w1 = events w @ [Edit sid (c_id c) n (c_manageable c)]"
    using edit_fields[of sid c n w] e by simp
  let ?P = "\<lambda>e. (\<exists>b. e = Edit sid (c_id c) n b) \<or> is_delete e \<or> e = Cleanup sid"
  have 1: "only_events ?P w w1" using f by (auto intro: only_events_one)
  show ?thesis
  proof (cases b)
    case True
    then show ?thesis using e 1 by simp
  next
    case False
    have "only_events ?P w1 (snd (cleanup_and_return sid w1))"
      using cleanup_and_return_events[of sid w1] by (rule only_events_mono) auto
    with 1 have "only_events ?P w (snd (cleanup_and_return sid w1))"
      by (rule only_events_trans)
    then show ?thesis using e False by simp
  qed
qed

lemma hours_event_simps [simp]:
  "\<not> hours_event (Send a b c)" "\<not> hours_event (Delete a b ok)" "\<not> hours_event (Cleanup a)"
  "\<not> hours_event (Spawn a)"
  "\<not> hours_event (Create a (CHR ''I'' # x))" "\<not> hours_event (Edit a b (CHR ''I'' # x) ok)"
  "\<not> hours_event (Create a (CHR ''P'' # CHR ''l'' # CHR ''a'' # CHR ''y'' # CHR ''e'' # CHR ''r'' # CHR ''s'' # x))"
  "\<not> hours_event (Edit a b (CHR ''P'' # CHR ''l'' # CHR ''a'' # CHR ''y'' # CHR ''e'' # CHR ''r'' # CHR ''s'' # x) ok)"
  by (simp_all add: hours_event_def)

lemma not_hours_event_delete: "is_delete e \<Longrightarrow> \<not> hours_event e"
  by (cases e) (simp_all add: is_delete_def)

lemma ip_display_events:
  "only_events (\<lambda>e. \<not> hours_event e) w (snd (ip_display sid a cs wait w))"
proof (cases cs)
  case Nil
  then show ?thesis
    by (auto simp: ip_display_def intro!: only_events_one[where e = "Create sid (''IP: '' @ a)"])
next
  case (Cons c rest)
  have "only_events (\<lambda>e. \<not> hours_event e) w
     (snd (case edit sid c (''IP: '' @ a) w of
             (True, w1) \<Rightarrow> (Sleep 301, w1)
           | (False, w1) \<Rightarrow> cleanup_and_return sid w1))"
    using rename_events[of sid c "''IP: '' @ a" w]
    by (rule only_events_mono) (auto simp: not_hours_event_delete)
  then show ?thesis
    using Cons by (simp add: ip_display_def Let_def only_events_refl)
qed

lemma players_display_events:
  "only_events (\<lambda>e. \<not> hours_event e) w (snd (players_display sid p mx cs wait w))"
proof (cases cs)
  case Nil
  then show ?thesis
    by (cases mx)
       (auto simp: players_display_def only_events_refl
          intro!: only_events_one[where e = "Create sid (''Players: '' @ str_int p @ ''/'' @ str_int (the mx))"])
next
  case (Cons c rest)
  have r: "only_events (\<lambda>e. \<not> hours_event e) w
     (snd (case edit sid c (''Players: '' @ x) w of
             (True, w1) \<Rightarrow> (Sleep 301, w1)
           | (False, w1) \<Rightarrow> cleanup_and_return sid w1))" for x
    using rename_events[of sid c "''Players: '' @ x" w]
    by (rule only_events_mono) (auto simp: not_hours_event_delete)
  show ?thesis
    using Cons r[of "str_int p @ ''/'' @ str_int (the mx)"]
    by (cases mx) (simp_all add: players_display_def Let_def only_events_refl)
qed

text \<open>The events of the third display block are those of the accumulated-time display.\<close>

lemma hours_display_events:
  "only_events
     (\<lambda>e. hours_event e \<longrightarrow>
        getShowHours sid w = Inr True \<and> \<not> first_iter loc \<and> ls \<noteq> - 1 \<and>
        (\<exists>names ct lt. names_v loc = Some names \<and> currTime_v loc = Some ct \<and> lastTime_v loc = Some lt \<and>
           (e = Create sid (hours_str ls names ct lt) \<or>
            (\<exists>c b. e = Edit sid c (hours_str ls names ct lt) b))))
     w (snd (hours_display sid ls loc cs wait w))"
proof (cases "getShowHours sid w = Inr True \<and> \<not> first_iter loc \<and> ls \<noteq> - 1 \<and>
    (\<exists>names ct lt. names_v loc = Some names \<and> currTime_v loc = Some ct \<and> lastTime_v loc = Some lt)")
  case False
  then have "snd (hours_display sid ls loc cs wait w) = w"
    by (auto simp: hours_display_def split: sum.splits option.splits)
  then show ?thesis by (simp add: only_events_refl)
next
  case True
  then obtain names ct lt where
    g: "getShowHours sid w = Inr True" "\<not> first_iter loc" "ls \<noteq> - 1"
    and l: "names_v loc = Some names" "currTime_v loc = Some ct" "lastTime_v loc = Some lt"
    by blast
  let ?S = "hours_str ls names ct lt"
  let ?P = "\<lambda>e. hours_event e \<longrightarrow>
        getShowHours sid w = Inr True \<and> \<not> first_iter loc \<and> ls \<noteq> - 1 \<and>
        (\<exists>names ct lt. names_v loc = Some names \<and> currTime_v loc = Some ct \<and> lastTime_v loc = Some lt \<and>
           (e = Create sid (hours_str ls names ct lt) \<or>
            (\<exists>c b. e = Edit sid c (hours_str ls names ct lt) b)))"
  show ?thesis
  proof (cases cs)
    case Nil
    have "only_events ?P w (create_voice_channel sid ?S w)"
      using g l by (auto intro!: only_events_one[where e = "Create sid ?S"])
    then show ?thesis
      using Nil g l by (simp add: hours_display_def Let_def)
  next
    case (Cons c rest)
    have "only_events ?P w
       (snd (case edit sid c ?S w of
               (True, w1) \<Rightarrow> (Sleep 301, w1)
             | (False, w1) \<Rightarrow> cleanup_and_return sid w1))"
      using rename_events[of sid c ?S w]
      by (rule only_events_mono) (use g l in \<open>auto simp: not_hours_event_delete\<close>)
    then show ?thesis
      using Cons g l by (simp add: hours_display_def Let_def only_events_refl)
  qed
qed

lemma step_ok_Sleep:
  "step_ok sid w (Sleep wt, w1) \<Longrightarrow> same_store w w1"
  by (simp add: step_ok_def)

lemma display_phase_events:
  assumes "t_servers w sid = Some row"
  shows "only_events
     (\<lambda>e. hours_event e \<longrightarrow>
        hours row \<and> \<not> first_iter loc \<and> ls \<noteq> - 1 \<and>
        (\<exists>names ct lt. names_v loc = Some names \<and> currTime_v loc = Some ct \<and> lastTime_v loc = Some lt \<and>
           (e = Create sid (hours_str ls names ct lt) \<or>
            (\<exists>c b. e = Edit sid c (hours_str ls names ct lt) b))))
     w (snd (display_phase sid g a p ls loc w))"
proof -
  let ?P = "\<lambda>e. hours_event e \<longrightarrow>
        hours row \<and> \<not> first_iter loc \<and> ls \<noteq> - 1 \<and>
        (\<exists>names ct lt. names_v loc = Some names \<and> currTime_v loc = Some ct \<and> lastTime_v loc = Some lt \<and>
           (e = Create sid (hours_str ls names ct lt) \<or>
            (\<exists>c b. e = Edit sid c (hours_str ls names ct lt) b)))"
  let ?i = "find_channels g None (Some ''IP: '') ''in'' (Some voice)"
  let ?p = "find_channels g None (Some ''Players: '') ''in'' (Some voice)"
  let ?t = "find_channels g None (Some ''Player Hrs: '') ''in'' (Some voice)"
  obtain o1 w1 where s1: "ip_display sid a ?i 10 w = (o1, w1)" by (cases "ip_display sid a ?i 10 w")
  have e1: "only_events ?P w w1"
    using ip_display_events[of w sid a ?i 10] s1 by (auto intro: only_events_mono)
  have ok1: "step_ok sid w (o1, w1)" using ip_display_ok[OF assms, of a ?i 10] s1 by simp
  show ?thesis
  proof (cases o1)
    case (Sleep wait1)
    have r1: "t_servers w1 sid = Some row" using ok1 assms Sleep by (simp add: step_ok_row)
    obtain o2 w2 where s2: "players_display sid p (max_v loc) ?p wait1 w1 = (o2, w2)"
      by (cases "players_display sid p (max_v loc) ?p wait1 w1")
    have e2: "only_events ?P w1 w2"
      using players_display_events[of w1 sid p "max_v loc" ?p wait1] s2
      by (auto intro: only_events_mono)
    have e12: "only_events ?P w w2" using e1 e2 by (rule only_events_trans)
    have ok2: "step_ok sid w1 (o2, w2)"
      using players_display_ok[OF r1, of p "max_v loc" ?p wait1] s2 by simp
    show ?thesis
    proof (cases o2)
      case (Sleep wait2)
      have r2: "t_servers w2 sid = Some row" using ok2 r1 Sleep by (simp add: step_ok_row)
      have "only_events ?P w2 (snd (hours_display sid ls loc ?t wait2 w2))"
        using hours_display_events[of sid w2 loc ls ?t wait2]
        by (rule only_events_mono) (use r2 in \<open>auto simp: getShowHours_def\<close>)
      with e12 have "only_events ?P w (snd (hours_display sid ls loc ?t wait2 w2))"
        by (rule only_events_trans)
      then show ?thesis
        using s1 s2 Sleep \<open>o1 = Sleep wait1\<close> by (simp add: display_phase_def)
    next
      case Return
      then show ?thesis using e12 s1 s2 \<open>o1 = Sleep wait1\<close> by (simp add: display_phase_def)
    next
      case (Raise e)
      then show ?thesis using e12 s1 s2 \<open>o1 = Sleep wait1\<close> by (simp add: display_phase_def)
    qed
  next
    case Return
    then show ?thesis using e1 s1 by (simp add: display_phase_def)
  next
    case (Raise e)
    then show ?thesis using e1 s1 by (simp add: display_phase_def)
  qed
qed

subsection \<open>The accumulated-time display\<close>

lemma hours_created:
  assumes "guilds w sid = Some g" and "sid \<in> set (servers w)" and "t_servers w sid = Some row"
    and "ip row \<noteq> []" and "t_times w sid = Some t"
    and "status_iter sid (Inr (p, m, names, d), now) loc w = (Sleep wt, loc', w')"
    and "hours row" and "\<not> first_iter loc" and "py_int t \<noteq> - 1"
    and "find_channels g None (Some ''Player Hrs: '') ''in'' (Some voice) = []"
  shows "Create sid (hours_str (py_int t) names now (case last_query row of None \<Rightarrow> now | Some l \<Rightarrow> l))
           \<in> set (new_events w w')"
proof -
  let ?l = "case last_query row of None \<Rightarrow> now | Some l \<Rightarrow> l"
  let ?loc1 = "loc\<lparr>max_v := Some m, names_v := Some names, currTime_v := Some now,
                    lastTime_v := Some ?l\<rparr>"
  let ?S = "hours_str (py_int t) names now ?l"
  let ?i = "find_channels g None (Some ''IP: '') ''in'' (Some voice)"
  let ?p = "find_channels g None (Some ''Players: '') ''in'' (Some voice)"
  from query_phase_success[OF assms(3,5), of g p m names d now loc] obtain w1 where
    q: "query_phase sid g (Inr (p, m, names, d)) now loc w = Inr (p, py_int t, ?loc1, w1)"
    and w1: "t_servers w1 = (t_servers w)(sid \<mapsto> row\<lparr>last_query := Some (now - now mod 1000000)\<rparr>)"
      "events w1 = events w @ join_events sid (announce_target w sid g) (jNames names (t_names w sid))"
    by blast
  from status_iter_cases[OF assms(1-4,6)] q
  have dp: "display_phase sid g (ip row) p (py_int t) ?loc1 w1 = (Sleep wt, w')"
    by auto
  let ?row1 = "row\<lparr>last_query := Some (now - now mod 1000000)\<rparr>"
  have r1: "t_servers w1 sid = Some ?row1" using w1(1) by simp
  obtain o1 wa where s1: "ip_display sid (ip row) ?i 10 w1 = (o1, wa)"
    by (cases "ip_display sid (ip row) ?i 10 w1")
  obtain wait1 where o1: "o1 = Sleep wait1"
    using dp s1 by (cases o1) (auto simp: display_phase_def)
  have oka: "step_ok sid w1 (Sleep wait1, wa)"
    using ip_display_ok[OF r1, of "ip row" ?i 10] s1 o1 by simp
  then have ra: "t_servers wa sid = Some ?row1" using r1 by (simp add: step_ok_row)
  obtain o2 wb where s2: "players_display sid p (max_v ?loc1) ?p wait1 wa = (o2, wb)"
    by (cases "players_display sid p (max_v ?loc1) ?p wait1 wa")
  obtain wait2 where o2: "o2 = Sleep wait2"
    using dp s1 o1 s2 by (cases o2) (auto simp: display_phase_def)
  have okb: "step_ok sid wa (Sleep wait2, wb)"
    using players_display_ok[OF ra, of p "max_v ?loc1" ?p wait1] s2 o2 by simp
  then have rb: "t_servers wb sid = Some ?row1" using ra by (simp add: step_ok_row)
  have h: "hours_display sid (py_int t) ?loc1 [] wait2 wb = (Sleep wait2, create_voice_channel sid ?S wb)"
    using rb assms(7-9) by (simp add: hours_display_def getShowHours_def Let_def)
  have "w' = create_voice_channel sid ?S wb"
    using dp s1 o1 s2 o2 h assms(10) by (simp add: display_phase_def)
  then have e: "events w' = events wb @ [Create sid ?S]" by simp
  from oka obtain evs1 where "events wa = events w1 @ evs1" by (auto simp: step_ok_def)
  moreover from okb obtain evs2 where "events wb = events wa @ evs2" by (auto simp: step_ok_def)
  ultimately have "events w' = events w @
      (join_events sid (announce_target w sid g) (jNames names (t_names w sid)) @ evs1 @ evs2 @
       [Create sid ?S])"
    using e w1(2) by simp
  then have "new_events w w' =
      join_events sid (announce_target w sid g) (jNames names (t_names w sid)) @ evs1 @ evs2 @
       [Create sid ?S]"
    by (rule events_gained)
  then show ?thesis by simp
qed

lemma no_hours_join_events: "list_all (\<lambda>e. \<not> hours_event e) (join_events sid target ns)"
  by (cases target) (simp_all add: join_events_def list_all_iff)

lemma hours_events_of_pass:
  assumes "guilds w sid = Some g" and "sid \<in> set (servers w)" and "t_servers w sid = Some row"
    and "ip row \<noteq> []" and "status_iter sid (q, now) loc w = (out, loc', w')"
    and "e \<in> set (new_events w w')" and "hours_event e"
  shows "hours row \<and> \<not> first_iter loc \<and>
         (\<exists>p m names d t. q = Inr (p, m, names, d) \<and> t_times w sid = Some t \<and>
            (e = Create sid (hours_str (py_int t) names now
                               (case last_query row of None \<Rightarrow> now | Some l \<Rightarrow> l)) \<or>
             (\<exists>c b. e = Edit sid c (hours_str (py_int t) names now
                               (case last_query row of None \<Rightarrow> now | Some l \<Rightarrow> l)) b)))"
proof -
  from status_iter_cases[OF assms(1-5)] assms(6)
  obtain pl ls w1 where
    q: "query_phase sid g q now loc w = Inr (pl, ls, loc', w1)"
    and dp: "display_phase sid g (ip row) pl ls loc' w1 = (out, w')"
    by (auto simp: new_events_def)
  from query_phase_Inr[OF q assms(3)] obtain row' evs where
    r1: "t_servers w1 sid = Some row'" "hours row' = hours row"
    and e1: "events w1 = events w @ evs"
    by blast
  let ?P = "\<lambda>e. hours_event e \<longrightarrow>
        hours row' \<and> \<not> first_iter loc' \<and> ls \<noteq> - 1 \<and>
        (\<exists>names ct lt. names_v loc' = Some names \<and> currTime_v loc' = Some ct \<and> lastTime_v loc' = Some lt \<and>
           (e = Create sid (hours_str ls names ct lt) \<or>
            (\<exists>c b. e = Edit sid c (hours_str ls names ct lt) b)))"
  have d: "only_events ?P w1 w'"
    using display_phase_events[OF r1(1), where loc = loc' and ls = ls and g = g and a = "ip row" and p = pl]
      dp by simp
  show ?thesis
  proof (cases q)
    case (Inl f)
    then have "ls = - 1" "w1 = w" using q by (simp_all add: query_phase_failure)
    with d assms(6,7) show ?thesis by (auto dest: only_events_new)
  next
    case (Inr st)
    obtain p m names dd where st: "st = (p, m, names, dd)" by (cases st)
    from q Inr st obtain row0 t where rows: "t_servers w sid = Some row0" "t_times w sid = Some t"
      using query_phase_Inr_rows by blast
    from query_phase_success[OF assms(3) rows(2), of g p m names dd now loc] q Inr st
    have l: "ls = py_int t"
      "loc' = loc\<lparr>max_v := Some m, names_v := Some names, currTime_v := Some now,
                    lastTime_v := Some (case last_query row of None \<Rightarrow> now | Some l \<Rightarrow> l)\<rparr>"
      and ev: "events w1 = events w @
                 join_events sid (announce_target w sid g) (jNames names (t_names w sid))"
      by auto
    have "only_events (\<lambda>e. \<not> hours_event e) w w1"
      using ev no_hours_join_events[of sid "announce_target w sid g" "jNames names (t_names w sid)"]
      unfolding only_events_def by blast
    then have "only_events ?P w w1"
      by (rule only_events_mono) simp
    with d have "only_events ?P w w'" by (rule only_events_trans[rotated])
    with assms(6,7) have "?P e \<and> hours_event e" by (auto dest: only_events_new)
    then show ?thesis
      using l r1(2) Inr st rows(2) by auto
  qed
qed


lemma floor_14_9: "\<lfloor>14 / 9 :: rat\<rfloor> = 1"
  by (rule floor_unique) simp_all

lemma floor_85_18: "\<lfloor>85 / 18 :: rat\<rfloor> = 4"
  by (rule floor_unique) simp_all

lemma demo_hours_str: "hours_str 5000 [''ann''] 1600000000 1000000000 = ''Player Hrs: 2''"
  by (simp add: hours_str_def total_seconds_def py_round_def Let_def floor_14_9 str_int_def
      str_nat.simps digit_char_def)

lemma py_int_5000: "py_int 5000 = 5000"
  by (simp add: py_int_def)

lemma demo_chan_names:
  "chan_name demo_world 7 \<lparr>c_id = 2, c_name = ''IP: mc.example.com'', c_type = voice, c_manageable = True\<rparr> =
     ''IP: mc.example.com''"
  "chan_name demo_world 7 \<lparr>c_id = 3, c_name = ''Players: 3/20'', c_type = voice, c_manageable = True\<rparr> =
     ''Players: 3/20''"
  by (simp_all add: chan_name_def demo_world_fields demo_guild_def)

lemma demo_hours_created:
  assumes "status_iter 7 (Inr (20, 20, [''ann''], ''hello''), 1600000000)
       (start_locals\<lparr>first_iter := False\<rparr>) demo_world = (Sleep wt, loc', w')"
  shows "Create 7 ''Player Hrs: 2'' \<in> set (events w')"
proof -
  have i: "ip demo_row \<noteq> []" "7 \<in> set (servers demo_world)" "hours demo_row"
    "\<not> first_iter (start_locals\<lparr>first_iter := False\<rparr>)" "py_int 5000 \<noteq> - 1"
    by (simp_all add: demo_row_def demo_world_fields py_int_def)
  from hours_created[OF demo_world_fields(1) i(2) demo_rows(1) i(1) demo_rows(2) assms i(3,4,5)
      demo_channels(3)]
  show ?thesis
    by (simp add: demo_row_def py_int_5000 demo_hours_str new_events_def demo_world_fields)
qed



subsection \<open>Passes whose query fails\<close>

lemma ip_display_passes:
  assumes "guilds w sid = Some g0" and "address_step_passes w sid g a"
  shows "\<exists>wt w1 evs g1.
           ip_display sid a (find_channels g None (Some ''IP: '') ''in'' (Some voice)) 10 w = (Sleep wt, w1) \<and>
           same_store w w1 \<and> events w1 = events w @ evs \<and>
           (\<forall>e\<in>set evs. e = Create sid (''IP: '' @ a) \<or> (\<exists>c. e = Edit sid c (''IP: '' @ a) True)) \<and>
           guilds w1 sid = Some g1"
proof (cases "find_channels g None (Some ''IP: '') ''in'' (Some voice)")
  case Nil
  then show ?thesis
    using assms(1)
    by (simp add: ip_display_def same_store_def create_voice_channel_def guilds_upd_channels)
next
  case (Cons c rest)
  show ?thesis
  proof (cases "chan_name w sid c = ''IP: '' @ a")
    case True
    then show ?thesis using Cons assms(1) by (simp add: ip_display_def same_store_def)
  next
    case False
    then have "c_manageable c" using assms(2) Cons by (simp add: address_step_passes_def)
    then show ?thesis
      using Cons False assms(1)
      by (simp add: ip_display_def same_store_def edit_def Let_def guilds_upd_channels)
  qed
qed


lemma bare_world_fields:
  "guilds bare_world 7 = Some bare_guild" "t_servers bare_world 7 = Some demo_row"
  "t_times bare_world 7 = Some 5000" "servers bare_world = [7]" "events bare_world = []"
  by (simp_all add: bare_world_def demo_world_def)

lemma bare_channels:
  "find_channels bare_guild None (Some ''IP: '') ''in'' (Some voice) =
     [\<lparr>c_id = 2, c_name = ''IP: mc.example.com'', c_type = voice, c_manageable = True\<rparr>]"
  "find_channels bare_guild None (Some ''Players: '') ''in'' (Some voice) = []"
  "find_channels bare_guild None (Some ''Player Hrs: '') ''in'' (Some voice) = []"
  by (simp_all add: find_channels_def bare_guild_def)



subsection \<open>The displays after a pass whose query failed\<close>

lemma find_channels_in:
  "find_channels g None (Some pre) ''in'' (Some voice) =
     filter (\<lambda>d. py_in pre (c_name d) \<and> c_type d = voice) (g_channels g)"
  by (simp add: find_channels_def cong: conj_cong)

lemma find_by_id:
  "distinct (map c_id xs) \<Longrightarrow> x \<in> set xs \<Longrightarrow> find (\<lambda>d. c_id d = c_id x) xs = Some x"
  by (induction xs) (auto simp: image_iff)

lemma find_append_Some: "find P xs = Some x \<Longrightarrow> find P (xs @ ys) = Some x"
  by (induction xs) (auto split: if_splits)

lemma find_map_rename:
  "c_id x \<noteq> i \<Longrightarrow>
   find (\<lambda>d. c_id d = c_id x) (map (\<lambda>d. if c_id d = i then d\<lparr>c_name := n\<rparr> else d) xs) =
     find (\<lambda>d. c_id d = c_id x) xs"
  by (induction xs) auto

lemma py_in_prefix: "py_in pre (pre @ rest)"
proof -
  have s: "startswith p (p @ r)" for p r :: string by (induction p) auto
  show ?thesis by (cases "pre @ rest") (use s[of pre rest] in auto)
qed

text \<open>After the first match of a filter on the name has been renamed, the first match bears the new name.\<close>

lemma first_display_renamed:
  assumes "filter (\<lambda>d. py_in pre (c_name d) \<and> c_type d = voice) xs = c # rest" and "py_in pre n"
  shows "\<exists>c' rest'.
           filter (\<lambda>d. py_in pre (c_name d) \<and> c_type d = voice)
             (map (\<lambda>d. if c_id d = c_id c then d\<lparr>c_name := n\<rparr> else d) xs) = c' # rest' \<and>
           c_name c' = n"
proof -
  let ?P = "\<lambda>d. py_in pre (c_name d) \<and> c_type d = voice"
  let ?f = "\<lambda>d. if c_id d = c_id c then d\<lparr>c_name := n\<rparr> else d"
  from assms(1) obtain us vs where
    xs: "xs = us @ c # vs" and us: "\<forall>u\<in>set us. \<not> ?P u" and c: "?P c"
    by (auto simp: filter_eq_Cons_iff)
  have "\<exists>c' rest'. filter ?P (map ?f (us @ c # vs)) = c' # rest' \<and> c_name c' = n"
    using us
  proof (induction us)
    case Nil
    then show ?case using c assms(2) by simp
  next
    case (Cons u us)
    then show ?case using assms(2) by auto
  qed
  then show ?thesis using xs by simp
qed

text \<open>
  C2, as the code has it. A pass whose query failed, for a tenant that has a player-count
  display which is not an address display as well, in a guild whose channels have distinct
  ids, and whose address display is absent, up to date or open to a rename: the pass goes
  to sleep without touching the store; it attempts no rename of the player-count display,
  which keeps its name; and afterwards the first address display of the guild is named
  "IP: " and the configured address.
\<close>

theorem failed_query_keeps_player_count:
  assumes "guilds w sid = Some g" and "sid \<in> set (servers w)" and "t_servers w sid = Some row"
    and "ip row \<noteq> []"
    and "distinct (map c_id (g_channels g))"
    and "find_channels g None (Some ''Players: '') ''in'' (Some voice) = pc # rest"
    and "\<not> py_in ''IP: '' (c_name pc)"
    and "address_step_passes w sid g (ip row)"
  shows "\<exists>wt w' g' ic irest.
           status_iter sid (Inl f, now) loc w = (Sleep wt, loc, w') \<and> same_store w w' \<and>
           chan_name w sid pc = c_name pc \<and> chan_name w' sid pc = c_name pc \<and>
           (\<forall>n b. Edit sid (c_id pc) n b \<notin> set (new_events w w')) \<and>
           guilds w' sid = Some g' \<and>
           find_channels g' None (Some ''IP: '') ''in'' (Some voice) = ic # irest \<and>
           c_name ic = ''IP: '' @ ip row"
proof -
  let ?n = "''IP: '' @ ip row"
  let ?Pi = "\<lambda>d. py_in ''IP: '' (c_name d) \<and> c_type d = voice"
  let ?xs = "g_channels g"
  have pc_in: "pc \<in> set ?xs"
    using assms(6) unfolding find_channels_in by (auto simp: filter_eq_Cons_iff)
  have fpc: "find (\<lambda>d. c_id d = c_id pc) ?xs = Some pc"
    using assms(5) pc_in by (rule find_by_id)
  have n0: "chan_name w sid pc = c_name pc"
    using fpc assms(1) by (simp add: chan_name_def)
  have pn: "py_in ''IP: '' ?n" by (rule py_in_prefix)
  have rest_of_pass: "status_iter sid (Inl f, now) loc w = (Sleep wt, loc, w1)"
    if "ip_display sid (ip row) (find_channels g None (Some ''IP: '') ''in'' (Some voice)) 10 w = (Sleep wt, w1)"
      and "same_store w w1" and "chan_name w1 sid pc = c_name pc" for wt w1
  proof -
    have p: "players_display sid (- 1) (max_v loc) (pc # rest) wt w1 = (Sleep wt, w1)"
      by (simp add: players_display_def)
    have "t_servers w1 sid = Some row" using that(2) assms(3) by (simp add: same_store_def)
    then have h: "hours_display sid (- 1) loc
             (find_channels g None (Some ''Player Hrs: '') ''in'' (Some voice)) wt w1 = (Sleep wt, w1)"
      by (simp add: hours_display_def getShowHours_def)
    have "display_phase sid g (ip row) (- 1) (- 1) loc w = (Sleep wt, w1)"
      using that(1) p h assms(6) by (simp add: display_phase_def)
    then show ?thesis
      by (simp add: status_iter_running[OF assms(1-4)] query_phase_failure)
  qed
  show ?thesis
  proof (cases "find_channels g None (Some ''IP: '') ''in'' (Some voice)")
    case Nil
    let ?new = "\<lparr>c_id = fresh_id ?xs, c_name = ?n, c_type = voice, c_manageable = True\<rparr>"
    let ?w1 = "create_voice_channel sid ?n w"
    have i: "ip_display sid (ip row) (find_channels g None (Some ''IP: '') ''in'' (Some voice)) 10 w =
               (Sleep 10, ?w1)"
      using Nil by (simp add: ip_display_def)
    have g1: "guilds ?w1 sid = Some (g\<lparr>g_channels := ?xs @ [?new]\<rparr>)"
      using assms(1) by (simp add: create_voice_channel_def guilds_upd_channels)
    have n1: "chan_name ?w1 sid pc = c_name pc"
      using g1 find_append_Some[OF fpc, of "[?new]"] by (simp add: chan_name_def)
    have st: "status_iter sid (Inl f, now) loc w = (Sleep 10, loc, ?w1)"
      by (rule rest_of_pass[OF i _ n1]) (simp add: same_store_def)
    have ev: "new_events w ?w1 = [Create sid ?n]" by (simp add: new_events_def)
    have "filter ?Pi ?xs = []" using Nil unfolding find_channels_in .
    then have "find_channels (g\<lparr>g_channels := ?xs @ [?new]\<rparr>) None (Some ''IP: '') ''in'' (Some voice) = [?new]"
      unfolding find_channels_in using pn by simp
    then show ?thesis
      using st n0 n1 ev g1 by (simp add: same_store_def)
  next
    case (Cons ic irest)
    have ic_f: "filter ?Pi ?xs = ic # irest" using Cons unfolding find_channels_in .
    then have ic_in: "ic \<in> set ?xs" and ic_P: "?Pi ic"
      by (auto simp: filter_eq_Cons_iff)
    have ni: "chan_name w sid ic = c_name ic"
      using find_by_id[OF assms(5) ic_in] assms(1) by (simp add: chan_name_def)
    have ne: "c_id pc \<noteq> c_id ic"
    proof
      assume "c_id pc = c_id ic"
      then have "pc = ic"
        using assms(5) pc_in ic_in by (metis distinct_map inj_onD)
      with ic_P assms(7) show False by simp
    qed
    show ?thesis
    proof (cases "c_name ic = ?n")
      case True
      have i: "ip_display sid (ip row) (find_channels g None (Some ''IP: '') ''in'' (Some voice)) 10 w =
               (Sleep 10, w)"
        using Cons ni True by (simp add: ip_display_def)
      have st: "status_iter sid (Inl f, now) loc w = (Sleep 10, loc, w)"
        by (rule rest_of_pass[OF i _ n0]) (simp add: same_store_def)
      show ?thesis
        using st n0 Cons True assms(1) by (simp add: same_store_def new_events_def)
    next
      case False
      then have m: "c_manageable ic"
        using assms(8) Cons ni by (simp add: address_step_passes_def)
      let ?f = "\<lambda>d. if c_id d = c_id ic then d\<lparr>c_name := ?n\<rparr> else d"
      let ?w1 = "snd (edit sid ic ?n w)"
      have i: "ip_display sid (ip row) (find_channels g None (Some ''IP: '') ''in'' (Some voice)) 10 w =
               (Sleep 301, ?w1)"
        using Cons ni False m by (simp add: ip_display_def edit_def Let_def)
      have g1: "guilds ?w1 sid = Some (g\<lparr>g_channels := map ?f ?xs\<rparr>)"
        using assms(1) m by (simp add: edit_def Let_def guilds_upd_channels)
      have n1: "chan_name ?w1 sid pc = c_name pc"
        using g1 fpc find_map_rename[OF ne, of ?n ?xs] by (simp add: chan_name_def)
      have st: "status_iter sid (Inl f, now) loc w = (Sleep 301, loc, ?w1)"
        by (rule rest_of_pass[OF i _ n1]) (simp add: same_store_def)
      have ev: "new_events w ?w1 = [Edit sid (c_id ic) ?n True]"
        using m by (simp add: new_events_def)
      from first_display_renamed[OF ic_f pn] obtain c' rest' where
        "filter ?Pi (map ?f ?xs) = c' # rest'" "c_name c' = ?n"
        by blast
      then have "find_channels (g\<lparr>g_channels := map ?f ?xs\<rparr>) None (Some ''IP: '') ''in'' (Some voice) = c' # rest'"
        "c_name c' = ?n"
        unfolding find_channels_in by simp_all
      then show ?thesis
        using st n0 n1 ev g1 ne by (simp add: same_store_def)
    qed
  qed
qed

lemma stale_world_fields:
  "guilds stale_world 7 = Some stale_guild" "t_servers stale_world 7 = Some demo_row"
  "servers stale_world = [7]" "events stale_world = []"
  by (simp_all add: stale_world_def demo_world_def)

lemma stale_channels:
  "find_channels stale_guild None (Some ''IP: '') ''in'' (Some voice) =
     [\<lparr>c_id = 2, c_name = ''IP: old.example.com'', c_type = voice, c_manageable = True\<rparr>]"
  "find_channels stale_guild None (Some ''Players: '') ''in'' (Some voice) =
     [\<lparr>c_id = 3, c_name = ''Players: 3/20'', c_type = voice, c_manageable = True\<rparr>]"
  by (simp_all add: find_channels_def stale_guild_def)

theorem failed_query_keeps_player_count_witness:
  "\<exists>wt w' g' ic irest.
     status_iter 7 (Inl TimeoutError, 1600000000) start_locals stale_world =
       (Sleep wt, start_locals, w') \<and>
     chan_name stale_world 7 \<lparr>c_id = 3, c_name = ''Players: 3/20'', c_type = voice, c_manageable = True\<rparr> =
       ''Players: 3/20'' \<and>
     chan_name w' 7 \<lparr>c_id = 3, c_name = ''Players: 3/20'', c_type = voice, c_manageable = True\<rparr> =
       ''Players: 3/20'' \<and>
     guilds w' 7 = Some g' \<and>
     find_channels g' None (Some ''IP: '') ''in'' (Some voice) = ic # irest \<and>
     c_name ic = ''IP: mc.example.com''"
proof -
  let ?pc = "\<lparr>c_id = 3, c_name = ''Players: 3/20'', c_type = voice, c_manageable = True\<rparr>"
  have h: "7 \<in> set (servers stale_world)" "ip demo_row \<noteq> []"
    "distinct (map c_id (g_channels stale_guild))" "\<not> py_in ''IP: '' (c_name ?pc)"
    "address_step_passes stale_world 7 stale_guild (ip demo_row)"
    by (simp_all add: stale_world_fields demo_row_def stale_guild_def address_step_passes_def
        stale_channels[unfolded stale_guild_def])
  from failed_query_keeps_player_count[OF stale_world_fields(1) h(1) stale_world_fields(2) h(2,3)
      stale_channels(2) h(4,5), of TimeoutError 1600000000 start_locals]
  show ?thesis
    by (simp add: demo_row_def) blast
qed

text \<open>
  Against C2 as stated: the query times out while the address display shows an address
  that is no longer the configured one, and the platform forbids the rename. The pass ends
  in the teardown, and the address display still shows the old address.
\<close>

theorem failed_query_address_counterexample:
  "\<exists>w' g'.
     status_iter 7 (Inl TimeoutError, 1600000000) start_locals locked_world =
       (Return, start_locals, w') \<and>
     map_option ip (t_servers locked_world 7) = Some ''mc.example.com'' \<and>
     guilds w' 7 = Some g' \<and>
     find_channels g' None (Some ''IP: '') ''in'' (Some voice) =
       [\<lparr>c_id = 2, c_name = ''IP: old.example.com'', c_type = voice, c_manageable = False\<rparr>]"
proof -
  from locked_pass_timeout obtain w' where
    s: "status_iter 7 (Inl TimeoutError, 1600000000) start_locals locked_world =
          (Return, start_locals, w')"
    and g: "map_option g_channels (guilds w' 7) = Some (g_channels locked_guild)"
    by blast
  from g obtain g' where g': "guilds w' 7 = Some g'" "g_channels g' = g_channels locked_guild"
    by auto
  have "find_channels g' None (Some ''IP: '') ''in'' (Some voice) =
          find_channels locked_guild None (Some ''IP: '') ''in'' (Some voice)"
    using g'(2) by (simp add: find_channels_def)
  then show ?thesis
    using s g'(1) by (simp add: locked_channels locked_world_fields demo_row_def)
qed

subsection \<open>Validation of the address at setup\<close>

lemma str_nat_digits: "set (str_nat n) \<subseteq> set ''0123456789''"
proof (induction n rule: str_nat.induct)
  case (1 n)
  have d: "digit_char k \<in> set ''0123456789''" if "k < 10" for k
    unfolding digit_char_def using that by (intro nth_mem) simp
  show ?case
  proof (cases "n < 10")
    case True
    then show ?thesis using d[of n] by (subst str_nat.simps) simp
  next
    case False
    then show ?thesis
      using 1 d[of "n mod 10"] by (subst str_nat.simps) simp
  qed
qed

lemma no_colon_str_nat: "CHR '':'' \<notin> set (str_nat n)"
  using str_nat_digits[of n] by auto

lemma no_colon_dotted: "CHR '':'' \<notin> set (dotted a b c d)"
  by (simp add: dotted_def no_colon_str_nat)

lemma split_on_none: "sep \<notin> set s \<Longrightarrow> split_on sep s = [s]"
  by (induction s) auto

lemma split_on_first: "sep \<notin> set s \<Longrightarrow> split_on sep (s @ sep # t) = s # split_on sep t"
  by (induction s) auto

lemma split_on_nonempty: "split_on sep s \<noteq> []"
  by (induction s) (auto split: list.splits)

lemma str_nat_values:
  "str_nat 10 = ''10''" "str_nat 127 = ''127''" "str_nat 172 = ''172''" "str_nat 192 = ''192''"
  "str_nat 168 = ''168''"
  by (simp_all add: str_nat.simps digit_char_def)

lemma match_start_nullable: "nullable r \<Longrightarrow> match_start r s"
  by (cases s) simp_all

lemma private_prefix_10: "match_start private_re (''10.'' @ rest)"
  by (simp add: private_re_def lit_def digit_c_def match_start_nullable)

lemma private_prefix_127: "match_start private_re (''127.'' @ rest)"
  by (simp add: private_re_def lit_def digit_c_def match_start_nullable)

lemma private_prefix_192: "match_start private_re (''192.168.'' @ rest)"
  by (simp add: private_re_def lit_def digit_c_def match_start_nullable)

lemma private_prefix_172:
  assumes "x \<in> set ''6789''"
  shows "match_start private_re (''172.1'' @ x # ''.'' @ rest)"
  using assms by (simp add: private_re_def lit_def digit_c_def match_start_nullable)

lemma private_prefix_172_2:
  assumes "x \<in> set ''0123456789''"
  shows "match_start private_re (''172.2'' @ x # ''.'' @ rest)"
  using assms by (simp add: private_re_def lit_def digit_c_def match_start_nullable)

lemma private_prefix_172_3:
  assumes "x \<in> set ''01''"
  shows "match_start private_re (''172.3'' @ x # ''.'' @ rest)"
  using assms by (simp add: private_re_def lit_def digit_c_def match_start_nullable)

lemma str_nat_two_digits:
  assumes "10 \<le> n" and "n < 100"
  shows "str_nat n = [digit_char (n div 10), digit_char (n mod 10)]"
proof -
  have "str_nat n = str_nat (n div 10) @ [digit_char (n mod 10)]"
    using assms by (subst str_nat.simps) simp
  moreover have "n div 10 < 10"
    using assms by (intro less_mult_imp_div_less) simp
  then have "str_nat (n div 10) = [digit_char (n div 10)]"
    by (subst str_nat.simps) simp
  ultimately show ?thesis by simp
qed

lemma digit_char_in: "k < 10 \<Longrightarrow> digit_char k \<in> set ''0123456789''"
  unfolding digit_char_def by (intro nth_mem) simp

lemma private_dotted:
  assumes "private_range a b"
  shows "match_start private_re (dotted a b c d)"
proof -
  let ?r = "str_nat c @ ''.'' @ str_nat d"
  from assms consider "a = 10" | "a = 127" | "a = 192" "b = 168"
    | "a = 172" "16 \<le> b" "b < 20" | "a = 172" "20 \<le> b" "b < 30" | "a = 172" "30 \<le> b" "b \<le> 31"
    unfolding private_range_def by linarith
  then show ?thesis
  proof cases
    case 1
    have "dotted a b c d = ''10.'' @ (str_nat b @ ''.'' @ ?r)"
      by (simp add: dotted_def 1 str_nat_values)
    then show ?thesis by (simp only: private_prefix_10)
  next
    case 2
    have "dotted a b c d = ''127.'' @ (str_nat b @ ''.'' @ ?r)"
      by (simp add: dotted_def 2 str_nat_values)
    then show ?thesis by (simp only: private_prefix_127)
  next
    case 3
    have "dotted a b c d = ''192.168.'' @ ?r"
      by (simp add: dotted_def 3 str_nat_values)
    then show ?thesis by (simp only: private_prefix_192)
  next
    case 4
    then have "b div 10 = 1" by simp
    then have e: "dotted a b c d = ''172.1'' @ digit_char (b mod 10) # ''.'' @ ?r"
      using 4 by (simp add: dotted_def str_nat_values str_nat_two_digits digit_char_def)
    have "b = 16 \<or> b = 17 \<or> b = 18 \<or> b = 19" using 4 by linarith
    then have "digit_char (b mod 10) \<in> set ''6789''"
      by (auto simp: digit_char_def)
    then show ?thesis unfolding e by (rule private_prefix_172)
  next
    case 5
    then have "b div 10 = 2" by simp
    then have e: "dotted a b c d = ''172.2'' @ digit_char (b mod 10) # ''.'' @ ?r"
      using 5 by (simp add: dotted_def str_nat_values str_nat_two_digits digit_char_def)
    have "digit_char (b mod 10) \<in> set ''0123456789''" by (rule digit_char_in) simp
    then show ?thesis unfolding e by (rule private_prefix_172_2)
  next
    case 6
    then have "b div 10 = 3" by simp
    then have e: "dotted a b c d = ''172.3'' @ digit_char (b mod 10) # ''.'' @ ?r"
      using 6 by (simp add: dotted_def str_nat_values str_nat_two_digits digit_char_def)
    have "b = 30 \<or> b = 31" using 6 by linarith
    then have "digit_char (b mod 10) \<in> set ''01''"
      by (auto simp: digit_char_def)
    then show ?thesis unfolding e by (rule private_prefix_172_3)
  qed
qed

text \<open>What \<open>validate_ip_port\<close> decides on, and that a rejection only posts a message.\<close>

lemma validate_outcome:
  "(\<exists>m. validate_ip_port cx ip0 prt w = (None, log_msg cx m w)) \<or>
   (\<exists>p. validate_ip_port cx ip0 prt w = (Some (hd (split_on CHR '':'' ip0), p), w) \<and>
        0 \<le> p \<and> p < 65536 \<and> (length (split_on CHR '':'' ip0) \<le> 1 \<longrightarrow> p = prt) \<and>
        (fullmatch domain_re (hd (split_on CHR '':'' ip0)) \<or>
         fullmatch addr_re (hd (split_on CHR '':'' ip0))) \<and>
        \<not> match_start private_re (hd (split_on CHR '':'' ip0)))"
proof (cases "length (split_on CHR '':'' ip0) > 1")
  case True
  then have h: "split_on CHR '':'' ip0 ! 0 = hd (split_on CHR '':'' ip0)"
    by (cases "split_on CHR '':'' ip0") simp_all
  show ?thesis
  proof (cases "int_of_str (split_on CHR '':'' ip0 ! 1)")
    case None
    then show ?thesis using True by (auto simp: validate_ip_port_def Let_def)
  next
    case (Some p)
    then show ?thesis using True h by (auto simp: validate_ip_port_def Let_def)
  qed
next
  case False
  then have "split_on CHR '':'' ip0 = [ip0]"
  proof (induction ip0)
    case Nil
    then show ?case by simp
  next
    case (Cons x xs)
    then show ?case by (auto split: if_splits list.splits simp: split_on_nonempty)
  qed
  then show ?thesis by (auto simp: validate_ip_port_def Let_def)
qed

lemma validate_rejects_private:
  assumes "match_start private_re (hd (split_on CHR '':'' ip0))"
  shows "fst (validate_ip_port cx ip0 prt w) = None"
  using validate_outcome[of cx ip0 prt w] assms by auto

lemma validate_rejects_port:
  assumes "CHR '':'' \<notin> set ip0" and "\<not> (0 \<le> prt \<and> prt < 65536)"
  shows "fst (validate_ip_port cx ip0 prt w) = None"
  using validate_outcome[of cx ip0 prt w] assms by (auto simp: split_on_none)

lemma validate_rejects_address:
  assumes "CHR '':'' \<notin> set ip0" and "\<not> fullmatch domain_re ip0" and "\<not> fullmatch addr_re ip0"
  shows "fst (validate_ip_port cx ip0 prt w) = None"
  using validate_outcome[of cx ip0 prt w] assms by (auto simp: split_on_none)

lemma validate_rejection_posts:
  assumes "fst (validate_ip_port cx ip0 prt w) = None"
  shows "\<exists>msg. validate_ip_port cx ip0 prt w =
           (None, emit (Send (ctx_guild_id cx) (ctx_channel cx) msg) w)"
proof -
  from validate_outcome[of cx ip0 prt w] assms obtain m where
    "validate_ip_port cx ip0 prt w = (None, log_msg cx m w)"
    by auto
  then have "validate_ip_port cx ip0 prt w =
      (None, emit (Send (ctx_guild_id cx) (ctx_channel cx) (join_sp m)) w)"
    by (simp add: log_msg_def safe_send_ctx_def)
  then show ?thesis by (rule exI)
qed

lemma setup_rejected:
  assumes "fst (validate_ip_port cx ip0 prt w) = None"
  shows "\<exists>msg. Admin_setup cx ip0 prt ann q w =
           (None, emit (Send (ctx_guild_id cx) (ctx_channel cx) msg) w)"
proof -
  from validate_rejection_posts[OF assms] obtain msg where
    "validate_ip_port cx ip0 prt w = (None, emit (Send (ctx_guild_id cx) (ctx_channel cx) msg) w)"
    by blast
  then have "Admin_setup cx ip0 prt ann q w =
      (None, emit (Send (ctx_guild_id cx) (ctx_channel cx) msg) w)"
    by (simp add: Admin_setup_def)
  then show ?thesis by (rule exI)
qed



end
